theory Spec2Isabelle
  imports Complex_Main "HOL-Library.AList" "HOL-Library.Multiset"
begin

section \<open>Values, types and documents of the schema model\<close>

text \<open>
  The validation engine of \<^verbatim>\<open>composition-js/src/validate.ts\<close> walks a merged
  ("super") graph and a services ("sub") graph in lock step and, where the walk cannot be
  mirrored, synthesises a witness operation. The schema model (\<^verbatim>\<open>@apollo/core\<close>) and the
  query graphs (\<^verbatim>\<open>@apollo/query-graphs\<close>) are collaborators of that file; their data is
  modelled here as far as \<^verbatim>\<open>validate.ts\<close> reads it.
\<close>

text \<open>
  JavaScript values, as far as witness values and default values need them. \<open>JNumber\<close>
  carries the decimal literal of the source (\<^verbatim>\<open>3.14\<close> is \<open>314 / 100\<close>).
\<close>

datatype js_value =
    JNull
  | JBool bool
  | JNumber rat
  | JString string
  | JArray "js_value list"
  | JObject "(string \<times> js_value) list"

text \<open>
  Truthiness of a value in a boolean context (\<^verbatim>\<open>x || y\<close>): \<^verbatim>\<open>null\<close>, \<^verbatim>\<open>false\<close>,
  \<^verbatim>\<open>0\<close> and the empty string are falsy, every array and object is truthy.
\<close>

fun truthy :: "js_value \<Rightarrow> bool" where
  "truthy JNull = False"
| "truthy (JBool b) = b"
| "truthy (JNumber n) = (n \<noteq> 0)"
| "truthy (JString s) = (s \<noteq> [])"
| "truthy (JArray xs) = True"
| "truthy (JObject kvs) = True"

text \<open>An optional property: \<^verbatim>\<open>undefined\<close> is \<open>None\<close>, and it is falsy.\<close>

fun truthy_opt :: "js_value option \<Rightarrow> bool" where
  "truthy_opt None = False"
| "truthy_opt (Some v) = truthy v"

text \<open>
  The input types of the schema model, by their \<^verbatim>\<open>kind\<close>. An input object lists its
  field definitions in declaration order; a field definition has a name, a type and an
  optional default value (the value itself, \<^verbatim>\<open>undefined\<close> when none is declared). An enum
  lists the names of its values in declaration order. The type is a finite tree: a
  reference cycle of the schema can only pass through a nullable field or a list, whose
  inner type \<^verbatim>\<open>generateWitnessValue\<close> never opens.
\<close>

datatype InputType =
    ScalarType string
  | EnumType string "string list"
  | InputObjectType string "InputFieldDefinition list"
  | ListType InputType
  | NonNullType InputType
and InputFieldDefinition =
    InputFieldDefinition string InputType "js_value option"

text \<open>
  Modelled from the spec: \<^verbatim>\<open>isNullableType\<close> of \<^verbatim>\<open>@apollo/core\<close> is not part of
  \<^verbatim>\<open>validate.ts\<close>; a type is required (non-nullable) exactly when it is a non-null wrapper.
\<close>

fun isNullableType :: "InputType \<Rightarrow> bool" where
  "isNullableType (NonNullType t) = False"
| "isNullableType t = True"

datatype TypeKind = ScalarKind | EnumKind | ObjectKind | InterfaceKind | UnionKind

record NamedType =
  type_name :: string
  type_kind :: TypeKind

text \<open>
  Modelled from the spec: \<^verbatim>\<open>isLeafType\<close> of \<^verbatim>\<open>@apollo/core\<close> is not part of
  \<^verbatim>\<open>validate.ts\<close>; the leaf types are the scalars and the enums.
\<close>

definition isLeafType :: "NamedType \<Rightarrow> bool" where
  "isLeafType t = (type_kind t = ScalarKind \<or> type_kind t = EnumKind)"

record ArgumentDefinition =
  arg_name :: string
  arg_type :: InputType

record FieldDefinition =
  field_name :: string
  arguments :: "ArgumentDefinition list"

text \<open>
  A field of an operation: its definition and the argument values, an object keyed by
  argument name (the variable definitions are always empty here and are left out).
\<close>

datatype Field = Field FieldDefinition "(string \<times> js_value) list"

text \<open>A fragment element: the type it applies to and the name of the type condition.\<close>

datatype FragmentElement = FragmentElement NamedType string

datatype OperationElement = FieldElement Field | FragmentElem FragmentElement

text \<open>
  Selections and selection sets. A field selection has an optional sub-selection; the
  fragment selection of the source is declared with a selection set, but
  \<^verbatim>\<open>buildWitnessNextStep\<close> passes \<^verbatim>\<open>subSelection!\<close> to it unchecked, so the model keeps
  the option there too. A selection set has the type it selects on and its selections in
  insertion order.
\<close>

datatype Selection =
    FieldSelection Field "SelectionSet option"
  | FragmentSelection FragmentElement "SelectionSet option"
and SelectionSet =
    SelectionSet NamedType "Selection list"

fun element :: "Selection \<Rightarrow> OperationElement" where
  "element (FieldSelection f sub) = FieldElement f"
| "element (FragmentSelection fe sub) = FragmentElem fe"

fun selectionSet :: "Selection \<Rightarrow> SelectionSet option" where
  "selectionSet (FieldSelection f sub) = sub"
| "selectionSet (FragmentSelection fe sub) = sub"

fun selections :: "SelectionSet \<Rightarrow> Selection list" where
  "selections (SelectionSet t ss) = ss"

datatype SchemaRootKind = RootQuery | RootMutation | RootSubscription

record Operation =
  op_rootKind :: SchemaRootKind
  op_selectionSet :: "SelectionSet option"

section \<open>Query graphs and paths\<close>

text \<open>
  Modelled from the spec: the graph and path types of \<^verbatim>\<open>@apollo/query-graphs\<close> are not
  part of \<^verbatim>\<open>validate.ts\<close>. A vertex is a (source schema, type) pair with its index in
  the graph; a transition is one of four kinds; an edge has a head, a tail, a transition
  and optional conditions; a graph has the schemas it was built from by name (a schema is
  only handed on, never read, so it is its name here), one root vertex per root kind it
  exposes, and its edges.
\<close>

record Vertex =
  vertex_index :: nat
  vertex_type :: NamedType
  vertex_source :: string

datatype Transition =
    FieldCollection FieldDefinition
  | DownCast NamedType NamedType
  | KeyResolution
  | FreeTransition

record Edge =
  edge_head :: Vertex
  edge_tail :: Vertex
  edge_transition :: Transition
  edge_conditions :: "SelectionSet option"

datatype Schema = Schema string

record Graph =
  graph_name :: string
  graph_sources :: "(string \<times> Schema) list"
  graph_roots :: "(SchemaRootKind \<times> Vertex) list"
  graph_edges :: "Edge list"

text \<open>
  Modelled from the spec: the lookups of the graph type of \<^verbatim>\<open>@apollo/query-graphs\<close>: the
  root vertex of a root kind, the root kinds the graph has, and the outgoing edges of a
  vertex, in the order of the edges.
\<close>

definition root :: "Graph \<Rightarrow> SchemaRootKind \<Rightarrow> Vertex option" where
  "root g k = map_of (graph_roots g) k"

definition rootKinds :: "Graph \<Rightarrow> SchemaRootKind list" where
  "rootKinds g = remdups (map fst (graph_roots g))"

definition outEdges :: "Graph \<Rightarrow> Vertex \<Rightarrow> Edge list" where
  "outEdges g v = filter (\<lambda>e. edge_head e = v) (graph_edges g)"

text \<open>
  Modelled from the spec: a path is anchored at a root vertex of one graph and is an
  ordered sequence of (edge, trigger) steps; extending it gives a new path. A root path
  starts at a root vertex, which has a root kind; a path created at any vertex has none.
  The trigger is a transition on the paths of the traversal and an operation element on
  the paths of condition validation.
\<close>

record ('t, 'k) GraphPath =
  path_graph :: Graph
  path_root :: Vertex
  path_rootKind :: 'k
  path_steps :: "(Edge \<times> 't) list"

type_synonym RootPath = "(Transition, SchemaRootKind) GraphPath"

type_synonym OpGraphPath = "(OperationElement, unit) GraphPath"

text \<open>
  Modelled from the spec: the operations of the path type that \<^verbatim>\<open>validate.ts\<close> calls: a
  path at any vertex (\<open>create\<close>) or at the root of a root kind, \<^verbatim>\<open>undefined\<close> when the
  graph has none (\<open>fromGraphRoot\<close>); extension by one step (\<open>add\<close>); the number of steps
  (\<^verbatim>\<open>size\<close>), the steps (\<open>elements\<close>), the vertex reached (\<open>tail\<close>), the outgoing
  edges there (\<open>nextEdges\<close>) and whether there are none (\<open>isTerminal\<close>).
\<close>

definition create :: "Graph \<Rightarrow> Vertex \<Rightarrow> OpGraphPath" where
  "create g v = \<lparr>path_graph = g, path_root = v, path_rootKind = (), path_steps = []\<rparr>"

definition fromGraphRoot :: "Graph \<Rightarrow> SchemaRootKind \<Rightarrow> ('t, SchemaRootKind) GraphPath option" where
  "fromGraphRoot g k =
     (case root g k of
        None \<Rightarrow> None
      | Some v \<Rightarrow> Some \<lparr>path_graph = g, path_root = v, path_rootKind = k, path_steps = []\<rparr>)"

definition add :: "('t, 'k) GraphPath \<Rightarrow> 't \<Rightarrow> Edge \<Rightarrow> ('t, 'k) GraphPath" where
  "add p t e = p\<lparr>path_steps := path_steps p @ [(e, t)]\<rparr>"

definition size_path :: "('t, 'k) GraphPath \<Rightarrow> nat" where
  "size_path p = length (path_steps p)"

definition elements :: "('t, 'k) GraphPath \<Rightarrow> (Edge \<times> 't) list" where
  "elements p = path_steps p"

definition tail :: "('t, 'k) GraphPath \<Rightarrow> Vertex" where
  "tail p = (if path_steps p = [] then path_root p else edge_tail (fst (last (path_steps p))))"

definition nextEdges :: "('t, 'k) GraphPath \<Rightarrow> Edge list" where
  "nextEdges p = outEdges (path_graph p) (tail p)"

definition isTerminal :: "('t, 'k) GraphPath \<Rightarrow> bool" where
  "isTerminal p = (nextEdges p = [])"

text \<open>
  Modelled from the spec: a path tracks the vertices it has visited since its last reset,
  and a step under a free transition is a reset: after it only the vertex just reached
  counts as visited. \<open>visitedSince\<close> goes through the steps with the vertices tracked so
  far; \<open>visited\<close> starts it at the root.
\<close>

fun visitedSince :: "Vertex list \<Rightarrow> (Edge \<times> Transition) list \<Rightarrow> Vertex list" where
  "visitedSince vs [] = vs"
| "visitedSince vs (step # steps) =
     visitedSince (if snd step = FreeTransition then [edge_tail (fst step)]
                   else vs @ [edge_tail (fst step)]) steps"

definition visited :: "RootPath \<Rightarrow> Vertex list" where
  "visited p = visitedSince [path_root p] (path_steps p)"

text \<open>
  Modelled from the spec: \<^verbatim>\<open>hasJustCycled\<close> holds when the path has revisited an
  already-visited vertex since its last free reset: the vertex it has just reached is
  among those tracked before it.
\<close>

definition hasJustCycled :: "RootPath \<Rightarrow> bool" where
  "hasJustCycled p = (last (visited p) \<in> set (butlast (visited p)))"

text \<open>
  Modelled from the spec: \<^verbatim>\<open>hasAnyEdgeConditions\<close> holds when some edge of the path
  carries conditions.
\<close>

definition hasAnyEdgeConditions :: "('t, 'k) GraphPath \<Rightarrow> bool" where
  "hasAnyEdgeConditions p = list_ex (\<lambda>s. edge_conditions (fst s) \<noteq> None) (path_steps p)"

section \<open>Errors\<close>

text \<open>
  What \<^verbatim>\<open>validate.ts\<close> can throw: the \<^verbatim>\<open>ValidationError\<close> it defines, the error of a
  failed \<^verbatim>\<open>assert\<close> (with the constant part of its message), and the \<^verbatim>\<open>TypeError\<close> of
  reading a property of \<^verbatim>\<open>undefined\<close>.
\<close>

record ValidationError =
  message :: string
  supergraphUnsatisfiablePath :: "RootPath"
  subgraphsPaths :: "RootPath list"
  witness :: Operation

datatype exn =
    ValidationErrorExn ValidationError
  | AssertionError string
  | TypeError string

section \<open>The witness builder\<close>

text \<open>
  \<^verbatim>\<open>generateWitnessValue\<close>, with the loop over the fields of an input object as
  \<open>generateWitnessFields\<close>, whose second argument is the object built so far. Assigning a
  property keeps an existing key in place and appends a new one. Reading
  \<^verbatim>\<open>type.values[0].name\<close> of an enum without values throws. The \<^verbatim>\<open>default\<close> branch of the
  source is for a kind outside the five of \<open>InputType\<close>.
\<close>

fun generateWitnessValue :: "InputType \<Rightarrow> exn + js_value"
and generateWitnessFields ::
  "InputFieldDefinition list \<Rightarrow> (string \<times> js_value) list \<Rightarrow> exn + (string \<times> js_value) list"
where
  "generateWitnessValue (ScalarType n) =
     Inr (if n = ''Int'' then JNumber 0
          else if n = ''Float'' then JNumber (314 / 100)
          else if n = ''Boolean'' then JBool True
          else if n = ''String'' then JString ''A string value''
          else if n = ''ID'' then JString ''<any id>''
          else JString ''<some value>'')"
| "generateWitnessValue (EnumType n vs) =
     (case vs of
        [] \<Rightarrow> Inl (TypeError ''Cannot read properties of undefined (reading name)'')
      | v # _ \<Rightarrow> Inr (JString v))"
| "generateWitnessValue (InputObjectType n fs) =
     (case generateWitnessFields fs [] of
        Inl e \<Rightarrow> Inl e
      | Inr obj \<Rightarrow> Inr (JObject obj))"
| "generateWitnessValue (ListType t) = Inr (JArray [])"
| "generateWitnessValue (NonNullType t) = generateWitnessValue t"
| "generateWitnessFields [] obj = Inr obj"
| "generateWitnessFields (InputFieldDefinition fname ftype dflt # fs) obj =
     (if truthy_opt dflt \<or> isNullableType ftype then generateWitnessFields fs obj
      else (case generateWitnessValue ftype of
              Inl e \<Rightarrow> Inl e
            | Inr v \<Rightarrow> generateWitnessFields fs (AList.update fname v obj)))"

text \<open>\<^verbatim>\<open>buildWitnessField\<close>: one argument value per argument definition, keyed by name.\<close>

fun buildWitnessArgs ::
  "ArgumentDefinition list \<Rightarrow> (string \<times> js_value) list \<Rightarrow> exn + (string \<times> js_value) list"
where
  "buildWitnessArgs [] args = Inr args"
| "buildWitnessArgs (argDef # rest) args =
     (case generateWitnessValue (arg_type argDef) of
        Inl e \<Rightarrow> Inl e
      | Inr v \<Rightarrow> buildWitnessArgs rest (AList.update (arg_name argDef) v args))"

definition buildWitnessField :: "FieldDefinition \<Rightarrow> exn + Field" where
  "buildWitnessField definition =
     (case buildWitnessArgs (arguments definition) [] of
        Inl e \<Rightarrow> Inl e
      | Inr args \<Rightarrow> Inr (Field definition args))"

text \<open>
  \<^verbatim>\<open>buildWitnessNextStep\<close>. The result \<^verbatim>\<open>undefined\<close> is \<open>None\<close>. Past the last edge the
  source reads \<^verbatim>\<open>edges[edges.length - 1].tail\<close>, which throws on an empty array. The
  sub-selection is computed before the edge's own selection is built.
\<close>

function buildWitnessNextStep :: "Edge list \<Rightarrow> nat \<Rightarrow> exn + SelectionSet option" where
  "buildWitnessNextStep edges index =
     (if index \<ge> length edges then
        (if edges = [] then Inl (TypeError ''Cannot read properties of undefined (reading tail)'')
         else (let lastType = vertex_type (edge_tail (edges ! (length edges - 1)))
               in Inr (if isLeafType lastType then None else Some (SelectionSet lastType []))))
      else
        (let edge = edges ! index in
         case buildWitnessNextStep edges (index + 1) of
           Inl e \<Rightarrow> Inl e
         | Inr subSelection \<Rightarrow>
             (case edge_transition edge of
                DownCast sourceType castedType \<Rightarrow>
                  Inr (Some (SelectionSet (vertex_type (edge_head edge))
                     [FragmentSelection (FragmentElement sourceType (type_name castedType))
                        subSelection]))
              | FieldCollection field \<Rightarrow>
                  (case buildWitnessField field of
                     Inl e \<Rightarrow> Inl e
                   | Inr f \<Rightarrow>
                       Inr (Some (SelectionSet (vertex_type (edge_head edge))
                          [FieldSelection f subSelection])))
              | FreeTransition \<Rightarrow> Inr subSelection
              | KeyResolution \<Rightarrow> Inr subSelection)))"
  by pat_completeness auto

termination
  by (relation "measure (\<lambda>(edges, index). length edges - index)") auto

declare buildWitnessNextStep.simps [simp del]

text \<open>\<^verbatim>\<open>buildWitnessOperation\<close>; the variable definitions of the operation are empty.\<close>

definition emptyWitnessPathMessage :: string where
  "emptyWitnessPathMessage = ''unsatisfiablePath should contain at least one edge/transition''"

definition buildWitnessOperation :: "RootPath \<Rightarrow> exn + Operation" where
  "buildWitnessOperation w =
     (if \<not> size_path w > 0 then Inl (AssertionError emptyWitnessPathMessage)
      else (case buildWitnessNextStep (map fst (elements w)) 0 of
              Inl e \<Rightarrow> Inl e
            | Inr sel \<Rightarrow> Inr \<lparr>op_rootKind = path_rootKind w, op_selectionSet = sel\<rparr>))"

text \<open>\<^verbatim>\<open>validationError\<close>: building the error builds its witness first.\<close>

definition validationError ::
  "RootPath \<Rightarrow> RootPath list \<Rightarrow> exn + ValidationError" where
  "validationError unsatisfiablePath subgraphsPaths' =
     (case buildWitnessOperation unsatisfiablePath of
        Inl e \<Rightarrow> Inl e
      | Inr w \<Rightarrow> Inr \<lparr>message = ''TODO'',
                      supergraphUnsatisfiablePath = unsatisfiablePath,
                      subgraphsPaths = subgraphsPaths',
                      witness = w\<rparr>)"

section \<open>Condition validation\<close>

text \<open>The two results of \<^verbatim>\<open>validateConditions\<close>: \<^verbatim>\<open>null\<close> (failure) and \<^verbatim>\<open>undefined\<close>.\<close>

datatype ConditionResult = CondNull | CondUndefined

text \<open>
  The functions \<^verbatim>\<open>validate.ts\<close> imports from \<^verbatim>\<open>@apollo/query-graphs\<close>, as parameters
  (\<open>'x\<close> is the type of excluded-edge sets, which is only handed on).
  \<^item> \<open>advancePathWithTransition path transition targetType resolver\<close> gives the ways in
    which a service path takes a transition toward a target type; it calls the resolver
    on the conditions of a service edge.
  \<^item> \<open>advanceSimultaneousPathsWithOperation schema paths element excluded\<close> stands for the
    call of that name in \<^verbatim>\<open>validateCurrentSelection\<close>; the resolver passed there is
    determined by the schema and the paths, which are arguments already.
  \<^item> \<open>federatedGraphRootTypeName kind\<close> is the type name of the services graph's root.
  Each is taken to return a value.
\<close>

record 'x Imports =
  advancePathWithTransition ::
    "RootPath \<Rightarrow> Transition \<Rightarrow> NamedType \<Rightarrow> (SelectionSet \<Rightarrow> Vertex \<Rightarrow> 'x \<Rightarrow> ConditionResult)
       \<Rightarrow> RootPath list"
  advanceSimultaneousPathsWithOperation ::
    "Schema option \<Rightarrow> OpGraphPath list \<Rightarrow> OperationElement \<Rightarrow> 'x \<Rightarrow> OpGraphPath list list"
  federatedGraphRootTypeName :: "SchemaRootKind \<Rightarrow> string"

record ConditionValidationState =
  cvs_selection :: Selection
  cvs_subgraphPaths :: "OpGraphPath list list"

text \<open>\<^verbatim>\<open>validateCurrentSelection\<close>: \<open>None\<close> is the \<^verbatim>\<open>null\<close> of the source.\<close>

definition validateCurrentSelection ::
  "'x Imports \<Rightarrow> Schema option \<Rightarrow> 'x \<Rightarrow> ConditionValidationState
     \<Rightarrow> ConditionValidationState list option" where
  "validateCurrentSelection I supergraphSchema excludedEdges state =
     (let newPaths = concat (map
            (\<lambda>path. advanceSimultaneousPathsWithOperation I supergraphSchema path
                       (element (cvs_selection state)) excludedEdges)
            (cvs_subgraphPaths state))
      in if length newPaths = 0 then None
         else Some (case selectionSet (cvs_selection state) of
                      Some ss \<Rightarrow>
                        map (\<lambda>s. \<lparr>cvs_selection = s, cvs_subgraphPaths = newPaths\<rparr>) (selections ss)
                    | None \<Rightarrow> []))"

text \<open>
  The work stack of \<^verbatim>\<open>validateConditions\<close> is a list whose head is the top: \<^verbatim>\<open>pop\<close>
  takes the head, and pushing the elements of a list one after the other puts its last
  element on top.
\<close>

definition pushAll :: "'a list \<Rightarrow> 'a list \<Rightarrow> 'a list" where
  "pushAll xs stack = rev xs @ stack"

fun stackSize :: "ConditionValidationState list \<Rightarrow> nat" where
  "stackSize [] = 0"
| "stackSize (s # stack) = size (cvs_selection s) + stackSize stack"

function validateConditionsLoop ::
  "'x Imports \<Rightarrow> Schema option \<Rightarrow> 'x \<Rightarrow> ConditionValidationState list \<Rightarrow> ConditionResult" where
  "validateConditionsLoop I supergraphSchema excludedEdges [] = CondUndefined"
| "validateConditionsLoop I supergraphSchema excludedEdges (state # stack) =
     (case validateCurrentSelection I supergraphSchema excludedEdges state of
        None \<Rightarrow> CondNull
      | Some newStates \<Rightarrow>
          validateConditionsLoop I supergraphSchema excludedEdges (pushAll newStates stack))"
  by pat_completeness auto

termination validateConditionsLoop
proof (relation "measure (\<lambda>(I, s, x, stack). stackSize stack)", goal_cases)
  case 1
  show ?case by simp
next
  case (2 I supergraphSchema excludedEdges state stack newStates)
  have append: "stackSize (xs @ ys) = stackSize xs + stackSize ys" for xs ys
    by (induction xs) auto
  have reverse: "stackSize (rev xs) = stackSize xs" for xs
    by (induction xs) (auto simp: append)
  have mapped: "stackSize (map (\<lambda>s. \<lparr>cvs_selection = s, cvs_subgraphPaths = ps\<rparr>) ss)
                  = sum_list (map size ss)" for ps ss
    by (induction ss) auto
  have smaller: "sum_list (map size (selections ss)) < size sel"
    if "selectionSet sel = Some ss" for sel ss
    using that by (cases sel; cases ss) (auto simp: size_list_conv_sum_list)
  have positive: "0 < size sel" for sel :: Selection
    by (cases sel) auto
  from 2 have "stackSize (pushAll newStates stack) < stackSize (state # stack)"
    by (auto simp: validateCurrentSelection_def pushAll_def Let_def append reverse mapped
        smaller positive split: if_splits option.splits)
  then show ?case by simp
qed

text \<open>\<^verbatim>\<open>validateConditions\<close>: one work item per selection of the conditions, then the loop.\<close>

definition validateConditions ::
  "'x Imports \<Rightarrow> Schema option \<Rightarrow> SelectionSet \<Rightarrow> OpGraphPath \<Rightarrow> 'x \<Rightarrow> ConditionResult" where
  "validateConditions I supergraphSchema conditions initialPath excludedEdges =
     validateConditionsLoop I supergraphSchema excludedEdges
       (pushAll (map (\<lambda>selection. \<lparr>cvs_selection = selection, cvs_subgraphPaths = [[initialPath]]\<rparr>)
                     (selections conditions)) [])"

section \<open>The validation state machine\<close>

record ValidationState =
  supergraphPath :: RootPath
  subgraphPaths :: "RootPath list"

text \<open>The constructor of \<^verbatim>\<open>ValidationState\<close>, with its assertion.\<close>

definition invalidStateMessage :: string where
  "invalidStateMessage = ''Invalid state: some subgraphs type do not match the supergraph.''"

definition newValidationState :: "RootPath \<Rightarrow> RootPath list \<Rightarrow> exn + ValidationState" where
  "newValidationState supergraphPath' subgraphPaths' =
     (if list_all (\<lambda>p. type_name (vertex_type (tail p)) = type_name (vertex_type (tail supergraphPath')))
           subgraphPaths'
      then Inr \<lparr>supergraphPath = supergraphPath', subgraphPaths = subgraphPaths'\<rparr>
      else Inl (AssertionError invalidStateMessage))"

definition noSubgraphRootMessage :: string where
  "noSubgraphRootMessage = ''The supergraph should not have a root if no subgraphs have one''"

definition unexpectedRootTypeMessage :: string where
  "unexpectedRootTypeMessage = ''Unexpected type for subgraphs root type''"

definition initialSubgraphPaths ::
  "'x Imports \<Rightarrow> SchemaRootKind \<Rightarrow> Graph \<Rightarrow> exn + RootPath list" where
  "initialSubgraphPaths I kind subgraphs =
     (case root subgraphs kind of
        None \<Rightarrow> Inl (AssertionError noSubgraphRootMessage)
      | Some root' \<Rightarrow>
          if type_name (vertex_type root') \<noteq> federatedGraphRootTypeName I kind
          then Inl (AssertionError unexpectedRootTypeMessage)
          else (case fromGraphRoot subgraphs kind of
                  None \<Rightarrow> Inl (TypeError ''Cannot read properties of undefined (reading add)'')
                | Some initialState \<Rightarrow>
                    Inr (map (\<lambda>e. add initialState FreeTransition e) (outEdges subgraphs root'))))"

text \<open>
  \<^verbatim>\<open>ValidationState.initial\<close>. Its arguments are evaluated before the constructor runs.
  \<^verbatim>\<open>fromGraphRoot(supergraph, kind)!\<close> is \<^verbatim>\<open>undefined\<close> when the supergraph has no root of
  that kind. The check of the constructor then throws a \<^verbatim>\<open>TypeError\<close> as soon as there is a
  subgraph path; with no subgraph path the source builds a state without a supergraph
  path, which \<open>ValidationState\<close> cannot hold, and the model reports the missing path as a
  \<open>TypeError\<close> there too. Every caller takes the kind from the supergraph itself.
\<close>

definition initial :: "'x Imports \<Rightarrow> Graph \<Rightarrow> SchemaRootKind \<Rightarrow> Graph \<Rightarrow> exn + ValidationState" where
  "initial I supergraph kind subgraphs =
     (case initialSubgraphPaths I kind subgraphs of
        Inl e \<Rightarrow> Inl e
      | Inr paths \<Rightarrow>
          (case fromGraphRoot supergraph kind of
             None \<Rightarrow> Inl (TypeError ''Cannot read properties of undefined (reading tail)'')
           | Some p \<Rightarrow> newValidationState p paths))"

definition conditionedEdgeMessage :: string where
  "conditionedEdgeMessage = ''Supergraph edges should not have conditions''"

text \<open>
  The \<^verbatim>\<open>newSubgraphPaths\<close> of \<^verbatim>\<open>validateTransition\<close>: every candidate path is advanced
  by the transition of the supergraph edge toward the type of its tail; the resolver
  validates the conditions of a service edge from a fresh path at the given vertex.
\<close>

definition newSubgraphPaths ::
  "'x Imports \<Rightarrow> ValidationState \<Rightarrow> Schema option \<Rightarrow> Edge \<Rightarrow> RootPath list" where
  "newSubgraphPaths I this supergraphSchema supergraphEdge =
     concat (map
       (\<lambda>path. advancePathWithTransition I path (edge_transition supergraphEdge)
          (vertex_type (edge_tail supergraphEdge))
          (\<lambda>conditions vertex excluded.
             validateConditions I supergraphSchema conditions
               (create (path_graph path) vertex) excluded))
       (subgraphPaths this))"

text \<open>\<^verbatim>\<open>validateTransition\<close>: either an exception or a new state.\<close>

definition validateTransition ::
  "'x Imports \<Rightarrow> ValidationState \<Rightarrow> Schema option \<Rightarrow> Edge \<Rightarrow> exn + ValidationState" where
  "validateTransition I this supergraphSchema supergraphEdge =
     (if edge_conditions supergraphEdge \<noteq> None then Inl (AssertionError conditionedEdgeMessage)
      else
        (let transition = edge_transition supergraphEdge;
             newPaths = newSubgraphPaths I this supergraphSchema supergraphEdge;
             newPath = add (supergraphPath this) transition supergraphEdge
         in if length newPaths = 0
            then (case validationError newPath (subgraphPaths this) of
                    Inl e \<Rightarrow> Inl e
                  | Inr err \<Rightarrow> Inl (ValidationErrorExn err))
            else newValidationState newPath newPaths))"

definition hasCycled :: "ValidationState \<Rightarrow> bool" where
  "hasCycled this = list_ex hasJustCycled (subgraphPaths this)"

section \<open>The traversal\<close>

text \<open>
  The schema of the traversal is the first source of the supergraph,
  \<^verbatim>\<open>[...supergraph.sources.values()][0]\<close>, \<^verbatim>\<open>undefined\<close> when there is none.
\<close>

definition firstSource :: "Graph \<Rightarrow> Schema option" where
  "firstSource g = (case graph_sources g of [] \<Rightarrow> None | s # _ \<Rightarrow> Some (snd s))"

text \<open>
  The constructor of \<^verbatim>\<open>ValidationTaversal\<close> pushes one initial state per root kind of
  the supergraph; the stack is a list whose head is the top.
\<close>

fun initialStack ::
  "'x Imports \<Rightarrow> Graph \<Rightarrow> Graph \<Rightarrow> SchemaRootKind list \<Rightarrow> ValidationState list
     \<Rightarrow> exn + ValidationState list" where
  "initialStack I supergraph subgraphs [] stack = Inr stack"
| "initialStack I supergraph subgraphs (k # ks) stack =
     (case initial I supergraph k subgraphs of
        Inl e \<Rightarrow> Inl e
      | Inr state \<Rightarrow> initialStack I supergraph subgraphs ks (state # stack))"

text \<open>
  \<^verbatim>\<open>handleState\<close>: the loop over the next edges of the state's supergraph path, as
  \<open>handleEdges\<close>, which returns the stack after the pushes.
\<close>

fun handleEdges ::
  "'x Imports \<Rightarrow> Schema option \<Rightarrow> ValidationState \<Rightarrow> Edge list \<Rightarrow> ValidationState list
     \<Rightarrow> exn + ValidationState list" where
  "handleEdges I supergraphSchema state [] stack = Inr stack"
| "handleEdges I supergraphSchema state (edge # edges) stack =
     (case validateTransition I state supergraphSchema edge of
        Inl e \<Rightarrow> Inl e
      | Inr newState \<Rightarrow>
          handleEdges I supergraphSchema state edges
            (if \<not> isTerminal (supergraphPath newState) \<and> \<not> hasCycled newState
             then newState # stack else stack))"

definition handleState ::
  "'x Imports \<Rightarrow> Schema option \<Rightarrow> ValidationState \<Rightarrow> ValidationState list
     \<Rightarrow> exn + ValidationState list" where
  "handleState I supergraphSchema state stack =
     handleEdges I supergraphSchema state (nextEdges (supergraphPath state)) stack"

text \<open>
  \<^verbatim>\<open>validate\<close>: the loop runs while the stack is not empty. A run that never leaves the
  loop has the value \<open>None\<close>.
\<close>

partial_function (option) validate ::
  "'x Imports \<Rightarrow> Schema option \<Rightarrow> ValidationState list \<Rightarrow> (exn + unit) option" where
  "validate I supergraphSchema stack =
     (case stack of
        [] \<Rightarrow> Some (Inr ())
      | state # rest \<Rightarrow>
          (case handleState I supergraphSchema state rest of
             Inl e \<Rightarrow> Some (Inl e)
           | Inr stack' \<Rightarrow> validate I supergraphSchema stack'))"

declare validate.simps [code]

text \<open>\<^verbatim>\<open>new ValidationTaversal(supergraph, subgraphs).validate()\<close>.\<close>

definition runTraversal :: "'x Imports \<Rightarrow> Graph \<Rightarrow> Graph \<Rightarrow> (exn + unit) option" where
  "runTraversal I supergraph subgraphs =
     (case initialStack I supergraph subgraphs (rootKinds supergraph) [] of
        Inl e \<Rightarrow> Some (Inl e)
      | Inr stack \<Rightarrow> validate I (firstSource supergraph) stack)"

text \<open>
  \<^verbatim>\<open>validateGraphComposition\<close>: the \<^verbatim>\<open>try\<close> turns a \<^verbatim>\<open>ValidationError\<close> into a result and
  throws anything else again. The result object has an optional \<^verbatim>\<open>error\<close>.
\<close>

record CompositionResult =
  error :: "ValidationError option"

definition validateGraphComposition ::
  "'x Imports \<Rightarrow> Graph \<Rightarrow> Graph \<Rightarrow> (exn + CompositionResult) option" where
  "validateGraphComposition I supergraph subgraphs =
     (case runTraversal I supergraph subgraphs of
        None \<Rightarrow> None
      | Some (Inr u) \<Rightarrow> Some (Inr \<lparr>error = None\<rparr>)
      | Some (Inl (ValidationErrorExn e)) \<Rightarrow> Some (Inr \<lparr>error = Some e\<rparr>)
      | Some (Inl e) \<Rightarrow> Some (Inl e))"

text \<open>
  Modelled from the spec: \<^verbatim>\<open>reduceMainPath\<close> of \<^verbatim>\<open>@apollo/query-graphs\<close> folds a
  function over the edges of the path, in order; an exception of the function ends it.
\<close>

fun reduceMainPath ::
  "('s \<Rightarrow> Edge \<Rightarrow> exn + 's) \<Rightarrow> 's \<Rightarrow> Edge list \<Rightarrow> exn + 's" where
  "reduceMainPath f state [] = Inr state"
| "reduceMainPath f state (edge # edges) =
     (case f state edge of
        Inl e \<Rightarrow> Inl e
      | Inr state' \<Rightarrow> reduceMainPath f state' edges)"

definition pathConditionsMessage :: string where
  "pathConditionsMessage = ''A supergraph path should not have edge condition paths''"

record SubgraphPathsResult =
  traversal :: "ValidationState option"
  sp_error :: "ValidationError option"

definition replayPath :: "'x Imports \<Rightarrow> RootPath \<Rightarrow> Graph \<Rightarrow> exn + ValidationState" where
  "replayPath I supergraphPath' subgraphs =
     (if hasAnyEdgeConditions supergraphPath' then Inl (AssertionError pathConditionsMessage)
      else
        (let supergraphSchema = firstSource (path_graph supergraphPath') in
         case initial I (path_graph supergraphPath') (path_rootKind supergraphPath') subgraphs of
           Inl e \<Rightarrow> Inl e
         | Inr initialState \<Rightarrow>
             reduceMainPath (\<lambda>state edge. validateTransition I state supergraphSchema edge)
               initialState (map fst (elements supergraphPath'))))"

text \<open>\<^verbatim>\<open>computeSubgraphPaths\<close>: \<open>replayPath\<close> is the body of its \<^verbatim>\<open>try\<close>.\<close>

definition computeSubgraphPaths ::
  "'x Imports \<Rightarrow> RootPath \<Rightarrow> Graph \<Rightarrow> exn + SubgraphPathsResult" where
  "computeSubgraphPaths I supergraphPath' subgraphs =
     (case replayPath I supergraphPath' subgraphs of
        Inr t \<Rightarrow> Inr \<lparr>traversal = Some t, sp_error = None\<rparr>
      | Inl (ValidationErrorExn e) \<Rightarrow> Inr \<lparr>traversal = None, sp_error = Some e\<rparr>
      | Inl e \<Rightarrow> Inl e)"

section \<open>Properties stated of the model\<close>

text \<open>
  The predicates, measures and specification-side functions that the theorems below are
  stated with.
\<close>




definition isValidationError :: "exn + 'a \<Rightarrow> bool" where
  "isValidationError r = (case r of Inl (ValidationErrorExn err) \<Rightarrow> True | _ \<Rightarrow> False)"

text \<open>The standing invariant of a validation state.\<close>

definition stateInvariant :: "ValidationState \<Rightarrow> bool" where
  "stateInvariant st =
     list_all (\<lambda>p. type_name (vertex_type (tail p)) = type_name (vertex_type (tail (supergraphPath st))))
       (subgraphPaths st)"

text \<open>The exceptions of the steps: only a conditioned edge raises the assertion on conditions.\<close>

definition stepError :: "Edge list \<Rightarrow> exn \<Rightarrow> bool" where
  "stepError edges x \<longleftrightarrow>
     (x = AssertionError conditionedEdgeMessage \<and> (\<exists>e \<in> set edges. edge_conditions e \<noteq> None)) \<or>
     x = AssertionError invalidStateMessage \<or> (\<exists>m. x = TypeError m) \<or>
     (\<exists>err. x = ValidationErrorExn err)"

text \<open>The supergraph of every state on the stack has unconditioned edges only.\<close>

definition unconditionedGraph :: "Graph \<Rightarrow> bool" where
  "unconditionedGraph g = list_all (\<lambda>e. edge_conditions e = None) (graph_edges g)"

definition unconditionedState :: "ValidationState \<Rightarrow> bool" where
  "unconditionedState st = unconditionedGraph (path_graph (supergraphPath st))"

text \<open>
  The state that \<^verbatim>\<open>ValidationState.initial\<close> builds for a root kind: the supergraph path is
  the root vertex alone; there is one subgraph path per outgoing edge of the services
  root, the root path extended by that edge under a free transition.
\<close>

definition rootPath :: "Graph \<Rightarrow> SchemaRootKind \<Rightarrow> Vertex \<Rightarrow> ('t, SchemaRootKind) GraphPath" where
  "rootPath g k v = \<lparr>path_graph = g, path_root = v, path_rootKind = k, path_steps = []\<rparr>"

definition initialState :: "Graph \<Rightarrow> SchemaRootKind \<Rightarrow> Graph \<Rightarrow> Vertex \<Rightarrow> Vertex \<Rightarrow> ValidationState" where
  "initialState sg k sub v r =
     \<lparr>supergraphPath = rootPath sg k v,
      subgraphPaths = map (\<lambda>e. add (rootPath sub k r) FreeTransition e) (outEdges sub r)\<rparr>"

text \<open>The entry of an argument in the arguments of a witness field.\<close>

definition argumentEntry :: "ArgumentDefinition \<Rightarrow> string \<times> js_value \<Rightarrow> bool" where
  "argumentEntry a kv \<longleftrightarrow> fst kv = arg_name a \<and> generateWitnessValue (arg_type a) = Inr (snd kv)"

text \<open>The innermost selection of a witness, from the type at the end of the path.\<close>

definition endSelection :: "Edge list \<Rightarrow> SelectionSet option" where
  "endSelection edges =
     (if isLeafType (vertex_type (edge_tail (last edges))) then None
      else Some (SelectionSet (vertex_type (edge_tail (last edges))) []))"

text \<open>The fields that the loop over an input object keeps.\<close>

fun keptField :: "InputFieldDefinition \<Rightarrow> bool" where
  "keptField (InputFieldDefinition fname ftype dflt) = (\<not> truthy_opt dflt \<and> \<not> isNullableType ftype)"

fun inputFieldName :: "InputFieldDefinition \<Rightarrow> string" where
  "inputFieldName (InputFieldDefinition fname ftype dflt) = fname"

text \<open>The path-sets that survive advancing every current path-set by a selection.\<close>

definition advanceSelection ::
  "'x Imports \<Rightarrow> Schema option \<Rightarrow> 'x \<Rightarrow> OpGraphPath list list \<Rightarrow> Selection \<Rightarrow> OpGraphPath list list" where
  "advanceSelection I supergraphSchema excludedEdges paths sel =
     concat (map (\<lambda>path. advanceSimultaneousPathsWithOperation I supergraphSchema path
                            (element sel) excludedEdges) paths)"

text \<open>
  In the words of the specification: a selection cannot be satisfied from the current
  path-sets when advancing them by it leaves none, or when it leaves some and one of its
  sub-selections cannot be satisfied from those.
\<close>

function unsatisfiable ::
  "'x Imports \<Rightarrow> Schema option \<Rightarrow> 'x \<Rightarrow> OpGraphPath list list \<Rightarrow> Selection \<Rightarrow> bool" where
  "unsatisfiable I supergraphSchema excludedEdges paths sel =
     (let newPaths = advanceSelection I supergraphSchema excludedEdges paths sel
      in newPaths = [] \<or>
         (case selectionSet sel of
            None \<Rightarrow> False
          | Some ss \<Rightarrow>
              (\<exists>sub \<in> set (selections ss).
                 unsatisfiable I supergraphSchema excludedEdges newPaths sub)))"
  by pat_completeness auto

termination unsatisfiable
proof (relation "measure (\<lambda>(I, s, x, paths, sel). size sel)", goal_cases)
  case 1
  show ?case by simp
next
  case (2 I supergraphSchema excludedEdges paths sel newPaths ss sub)
  then have sel: "selectionSet sel = Some ss" and sub: "sub \<in> set (selections ss)"
    by simp_all
  from sel have "sum_list (map size (selections ss)) < size sel"
    by (cases sel; cases ss) (auto simp: size_list_conv_sum_list)
  moreover from sub have "size sub \<le> sum_list (map size (selections ss))"
    using member_le_sum_list [of "size sub" "map size (selections ss)"] by simp
  ultimately show ?case by simp
qed

declare unsatisfiable.simps [simp del]

definition unsatisfiableState :: "'x Imports \<Rightarrow> Schema option \<Rightarrow> 'x \<Rightarrow> ConditionValidationState \<Rightarrow> bool" where
  "unsatisfiableState I schema excl state =
     unsatisfiable I schema excl (cvs_subgraphPaths state) (cvs_selection state)"

definition subSelections :: "Selection \<Rightarrow> Selection list" where
  "subSelections sel = (case selectionSet sel of None \<Rightarrow> [] | Some ss \<Rightarrow> selections ss)"






section \<open>Example graphs\<close>

text \<open>
  A services graph with one service: \<^verbatim>\<open>Query.me: User\<close>, \<^verbatim>\<open>User.name: String\<close> and the
  cyclic \<^verbatim>\<open>User.friend: User\<close>. The supergraph \<open>exSupergraph\<close> has the same fields;
  \<open>exSupergraphGap\<close> also has \<^verbatim>\<open>User.address(filter: AddressFilter!): String\<close>, which no
  service provides.
\<close>

definition tQuery :: NamedType where
  "tQuery = \<lparr>type_name = ''Query'', type_kind = ObjectKind\<rparr>"

definition tUser :: NamedType where
  "tUser = \<lparr>type_name = ''User'', type_kind = ObjectKind\<rparr>"

definition tString :: NamedType where
  "tString = \<lparr>type_name = ''String'', type_kind = ScalarKind\<rparr>"

definition tFederatedRoot :: NamedType where
  "tFederatedRoot = \<lparr>type_name = ''[query]'', type_kind = ObjectKind\<rparr>"

definition exAddressFilter :: InputType where
  "exAddressFilter = InputObjectType ''AddressFilter''
     [InputFieldDefinition ''field'' (NonNullType (ScalarType ''String'')) None,
      InputFieldDefinition ''limit'' (ScalarType ''Int'') None]"

definition fMe :: FieldDefinition where
  "fMe = \<lparr>field_name = ''me'', arguments = []\<rparr>"

definition fName :: FieldDefinition where
  "fName = \<lparr>field_name = ''name'', arguments = []\<rparr>"

definition fFriend :: FieldDefinition where
  "fFriend = \<lparr>field_name = ''friend'', arguments = []\<rparr>"

definition fAddress :: FieldDefinition where
  "fAddress = \<lparr>field_name = ''address'',
     arguments = [\<lparr>arg_name = ''filter'', arg_type = NonNullType exAddressFilter\<rparr>]\<rparr>"

definition mkVertex :: "nat \<Rightarrow> NamedType \<Rightarrow> string \<Rightarrow> Vertex" where
  "mkVertex i t s = \<lparr>vertex_index = i, vertex_type = t, vertex_source = s\<rparr>"

definition mkEdge :: "Vertex \<Rightarrow> Transition \<Rightarrow> Vertex \<Rightarrow> Edge" where
  "mkEdge h t v = \<lparr>edge_head = h, edge_tail = v, edge_transition = t, edge_conditions = None\<rparr>"

definition superQuery :: Vertex where "superQuery = mkVertex 0 tQuery ''supergraph''"

definition superUser :: Vertex where "superUser = mkVertex 1 tUser ''supergraph''"

definition superString :: Vertex where "superString = mkVertex 2 tString ''supergraph''"

definition eMe :: Edge where "eMe = mkEdge superQuery (FieldCollection fMe) superUser"

definition eName :: Edge where "eName = mkEdge superUser (FieldCollection fName) superString"

definition eFriend :: Edge where "eFriend = mkEdge superUser (FieldCollection fFriend) superUser"

definition eAddress :: Edge where "eAddress = mkEdge superUser (FieldCollection fAddress) superString"

definition exSupergraph :: Graph where
  "exSupergraph = \<lparr>graph_name = ''supergraph'', graph_sources = [(''supergraph'', Schema ''supergraph'')],
     graph_roots = [(RootQuery, superQuery)], graph_edges = [eMe, eName, eFriend]\<rparr>"

definition exSupergraphGap :: Graph where
  "exSupergraphGap = exSupergraph\<lparr>graph_edges := [eMe, eName, eFriend, eAddress]\<rparr>"

definition subRoot :: Vertex where "subRoot = mkVertex 0 tFederatedRoot ''federated''"

definition subQuery :: Vertex where "subQuery = mkVertex 1 tQuery ''S1''"

definition subUser :: Vertex where "subUser = mkVertex 2 tUser ''S1''"

definition subString :: Vertex where "subString = mkVertex 3 tString ''S1''"

definition exSubgraphs :: Graph where
  "exSubgraphs = \<lparr>graph_name = ''federated'', graph_sources = [(''S1'', Schema ''S1'')],
     graph_roots = [(RootQuery, subRoot)],
     graph_edges = [mkEdge subRoot FreeTransition subQuery,
                    mkEdge subQuery (FieldCollection fMe) subUser,
                    mkEdge subUser (FieldCollection fName) subString,
                    mkEdge subUser (FieldCollection fFriend) subUser]\<rparr>"

text \<open>
  Simple stand-ins for the imported functions: a path advances over the edges at its tail
  that carry the same transition, lead to the target type and whose conditions resolve;
  a single operation path advances over the edges that collect the field or cast to the
  type of the element.
\<close>

definition exAdvancePath ::
  "RootPath \<Rightarrow> Transition \<Rightarrow> NamedType \<Rightarrow> (SelectionSet \<Rightarrow> Vertex \<Rightarrow> unit \<Rightarrow> ConditionResult)
     \<Rightarrow> RootPath list" where
  "exAdvancePath path transition targetType resolver =
     map (\<lambda>e. add path transition e)
       (filter (\<lambda>e. edge_transition e = transition
                   \<and> type_name (vertex_type (edge_tail e)) = type_name targetType
                   \<and> (case edge_conditions e of
                        None \<Rightarrow> True
                      | Some c \<Rightarrow> resolver c (edge_head e) () = CondUndefined))
          (nextEdges path))"

fun exMatches :: "Transition \<Rightarrow> OperationElement \<Rightarrow> bool" where
  "exMatches (FieldCollection d) (FieldElement (Field d' args)) = (d = d')"
| "exMatches (DownCast s c) (FragmentElem (FragmentElement t n)) = (type_name c = n)"
| "exMatches t el = False"

definition exAdvanceOperation ::
  "Schema option \<Rightarrow> OpGraphPath list \<Rightarrow> OperationElement \<Rightarrow> unit \<Rightarrow> OpGraphPath list list" where
  "exAdvanceOperation schema paths el excluded =
     (case paths of
        [p] \<Rightarrow> map (\<lambda>e. [add p el e]) (filter (\<lambda>e. exMatches (edge_transition e) el) (nextEdges p))
      | _ \<Rightarrow> [])"

fun exRootTypeName :: "SchemaRootKind \<Rightarrow> string" where
  "exRootTypeName RootQuery = ''[query]''"
| "exRootTypeName RootMutation = ''[mutation]''"
| "exRootTypeName RootSubscription = ''[subscription]''"

definition exImports :: "unit Imports" where
  "exImports = \<lparr>advancePathWithTransition = exAdvancePath,
                 advanceSimultaneousPathsWithOperation = exAdvanceOperation,
                 federatedGraphRootTypeName = exRootTypeName\<rparr>"

definition exInitialPath :: RootPath where
  "exInitialPath = \<lparr>path_graph = exSubgraphs, path_root = subRoot, path_rootKind = RootQuery,
     path_steps = [(mkEdge subRoot FreeTransition subQuery, FreeTransition),
                   (mkEdge subQuery (FieldCollection fMe) subUser, FieldCollection fMe)]\<rparr>"

text \<open>The state of the example traversal after \<^verbatim>\<open>me\<close>, in the supergraph with the gap.\<close>

definition exUserState :: ValidationState where
  "exUserState = \<lparr>supergraphPath =
       \<lparr>path_graph = exSupergraphGap, path_root = superQuery, path_rootKind = RootQuery,
        path_steps = [(eMe, FieldCollection fMe)]\<rparr>,
     subgraphPaths = [exInitialPath]\<rparr>"

definition exReplayPath :: RootPath where
  "exReplayPath = \<lparr>path_graph = exSupergraph, path_root = superQuery, path_rootKind = RootQuery,
     path_steps = [(eMe, FieldCollection fMe), (eName, FieldCollection fName)]\<rparr>"

definition eConditioned :: Edge where
  "eConditioned = eName\<lparr>edge_conditions := Some (SelectionSet tUser [])\<rparr>"

definition exConditionedPath :: RootPath where
  "exConditionedPath = exReplayPath\<lparr>path_steps :=
     [(eMe, FieldCollection fMe), (eConditioned, FieldCollection fName)]\<rparr>"

definition exNoRootSubgraphs :: Graph where
  "exNoRootSubgraphs = exSubgraphs\<lparr>graph_roots := []\<rparr>"

text \<open>
  The services graph \<open>exUnnamedRootSubgraphs\<close> has a query root, but its type is named
  \<^verbatim>\<open>Query\<close> and not \<^verbatim>\<open>[query]\<close>: \<^verbatim>\<open>initial\<close> produces no state for the query root of the
  supergraph, although both graphs have that root.
\<close>

definition exUnnamedRootSubgraphs :: Graph where
  "exUnnamedRootSubgraphs = exSubgraphs\<lparr>graph_roots := [(RootQuery, subQuery)]\<rparr>"

text \<open>
  A path of the supergraph with the gap, extended by a cast: a free transition, the field
  \<^verbatim>\<open>me\<close>, the downcast of \<^verbatim>\<open>User\<close> to \<^verbatim>\<open>Admin\<close> and the field \<^verbatim>\<open>address\<close>.
\<close>

definition tAdmin :: NamedType where
  "tAdmin = \<lparr>type_name = ''Admin'', type_kind = ObjectKind\<rparr>"

definition superAdmin :: Vertex where "superAdmin = mkVertex 3 tAdmin ''supergraph''"

definition eFree :: Edge where "eFree = mkEdge superQuery FreeTransition superQuery"

definition eCast :: Edge where "eCast = mkEdge superUser (DownCast tUser tAdmin) superAdmin"

definition eAdminAddress :: Edge where
  "eAdminAddress = mkEdge superAdmin (FieldCollection fAddress) superString"

definition exWitnessEdges :: "Edge list" where
  "exWitnessEdges = [eFree, eMe, eCast, eAdminAddress]"

definition exWitnessPath :: RootPath where
  "exWitnessPath = \<lparr>path_graph = exSupergraphGap, path_root = superQuery, path_rootKind = RootQuery,
     path_steps = map (\<lambda>e. (e, edge_transition e)) exWitnessEdges\<rparr>"

definition exAddressField :: Field where
  "exAddressField = Field fAddress [(''filter'', JObject [(''field'', JString ''A string value'')])]"

text \<open>
  The input object \<^verbatim>\<open>input Page { limit: Int! = 0, field: String!, offset: Int }\<close>.
\<close>

definition exPageInput :: InputType where
  "exPageInput = InputObjectType ''Page''
     [InputFieldDefinition ''limit'' (NonNullType (ScalarType ''Int'')) (Some (JNumber 0)),
      InputFieldDefinition ''field'' (NonNullType (ScalarType ''String'')) None,
      InputFieldDefinition ''offset'' (ScalarType ''Int'') None]"

text \<open>
  Conditions on \<^verbatim>\<open>User\<close> in the example service: \<^verbatim>\<open>{ friend { name } }\<close> can be satisfied,
  \<^verbatim>\<open>{ friend { address } }\<close> cannot.
\<close>

definition exConditions :: "FieldDefinition \<Rightarrow> SelectionSet" where
  "exConditions d = SelectionSet tUser
     [FieldSelection (Field fFriend []) (Some (SelectionSet tUser [FieldSelection (Field d []) None]))]"















section \<open>Properties of the witness builder and the state machine\<close>

lemma size_path_add: "size_path (add p t e) = Suc (size_path p)"
  by (simp add: add_def size_path_def)

lemma tail_add: "tail (add p t e) = edge_tail e"
  by (simp add: add_def tail_def)

lemma generateWitness_error:
  "generateWitnessValue t = Inl x \<Longrightarrow> \<exists>m. x = TypeError m"
  "generateWitnessFields fs obj = Inl x \<Longrightarrow> \<exists>m. x = TypeError m"
  by (induction t and fs obj rule: generateWitnessValue_generateWitnessFields.induct)
     (auto split: list.splits sum.splits if_splits)

lemma buildWitnessArgs_error:
  "buildWitnessArgs defs args = Inl x \<Longrightarrow> \<exists>m. x = TypeError m"
  by (induction defs args rule: buildWitnessArgs.induct)
     (auto split: sum.splits dest: generateWitness_error(1))

lemma buildWitnessField_error:
  "buildWitnessField d = Inl x \<Longrightarrow> \<exists>m. x = TypeError m"
  by (auto simp: buildWitnessField_def split: sum.splits dest: buildWitnessArgs_error)

lemma buildWitnessNextStep_end:
  "index \<ge> length edges \<Longrightarrow>
   buildWitnessNextStep edges index =
     (if edges = [] then Inl (TypeError ''Cannot read properties of undefined (reading tail)'')
      else Inr (if isLeafType (vertex_type (edge_tail (last edges))) then None
                else Some (SelectionSet (vertex_type (edge_tail (last edges))) [])))"
  by (subst buildWitnessNextStep.simps) (simp add: last_conv_nth)

lemma buildWitnessNextStep_step:
  "index < length edges \<Longrightarrow>
   buildWitnessNextStep edges index =
     (case buildWitnessNextStep edges (Suc index) of
        Inl e \<Rightarrow> Inl e
      | Inr subSelection \<Rightarrow>
          (case edge_transition (edges ! index) of
             DownCast sourceType castedType \<Rightarrow>
               Inr (Some (SelectionSet (vertex_type (edge_head (edges ! index)))
                  [FragmentSelection (FragmentElement sourceType (type_name castedType))
                     subSelection]))
           | FieldCollection field \<Rightarrow>
               (case buildWitnessField field of
                  Inl e \<Rightarrow> Inl e
                | Inr f \<Rightarrow>
                    Inr (Some (SelectionSet (vertex_type (edge_head (edges ! index)))
                       [FieldSelection f subSelection])))
           | FreeTransition \<Rightarrow> Inr subSelection
           | KeyResolution \<Rightarrow> Inr subSelection))"
  by (subst buildWitnessNextStep.simps) (simp add: Let_def)

lemma buildWitnessNextStep_error:
  "buildWitnessNextStep edges i = Inl x \<Longrightarrow> \<exists>m. x = TypeError m"
proof (induction edges i rule: buildWitnessNextStep.induct)
  case (1 edges index)
  show ?case
  proof (cases "index \<ge> length edges")
    case True
    with "1.prems" show ?thesis by (auto simp: buildWitnessNextStep_end split: if_splits)
  next
    case False
    then have lt: "index < length edges" by simp
    from "1.prems" "1.IH" [OF False refl] show ?thesis
      unfolding buildWitnessNextStep_step [OF lt]
      by (auto split: sum.splits Transition.splits dest: buildWitnessField_error)
  qed
qed






lemma buildWitnessOperation_error:
  "buildWitnessOperation p = Inl x \<Longrightarrow> 0 < size_path p \<Longrightarrow> \<exists>m. x = TypeError m"
  by (auto simp: buildWitnessOperation_def split: sum.splits dest: buildWitnessNextStep_error)

lemma isValidationErrorE:
  "isValidationError r \<Longrightarrow> \<exists>err. r = Inl (ValidationErrorExn err)"
  by (auto simp: isValidationError_def split: sum.splits exn.splits)

lemma validateTransition_cases:
  "validateTransition I st schema edge =
     (if edge_conditions edge \<noteq> None then Inl (AssertionError conditionedEdgeMessage)
      else if newSubgraphPaths I st schema edge = []
      then (case validationError (add (supergraphPath st) (edge_transition edge) edge) (subgraphPaths st) of
              Inl e \<Rightarrow> Inl e
            | Inr err \<Rightarrow> Inl (ValidationErrorExn err))
      else newValidationState (add (supergraphPath st) (edge_transition edge) edge)
             (newSubgraphPaths I st schema edge))"
  by (simp add: validateTransition_def Let_def)

lemma validationError_cases:
  "validationError p ps = Inr err \<Longrightarrow>
     supergraphUnsatisfiablePath err = p \<and> subgraphsPaths err = ps \<and> message err = ''TODO'' \<and>
     buildWitnessOperation p = Inr (witness err)"
  by (auto simp: validationError_def split: sum.splits)

lemma validationError_error:
  "validationError (add p t e) ps = Inl x \<Longrightarrow> \<exists>m. x = TypeError m"
  by (auto simp: validationError_def size_path_add split: sum.splits
      dest: buildWitnessOperation_error)

lemma validateTransition_not_empty_assertion:
  "validateTransition I st schema edge \<noteq> Inl (AssertionError emptyWitnessPathMessage)"
  by (auto simp: validateTransition_cases newValidationState_def conditionedEdgeMessage_def
      emptyWitnessPathMessage_def invalidStateMessage_def split: sum.splits
      dest: validationError_error)

lemma handleEdges_not_empty_assertion:
  "handleEdges I schema st edges stack \<noteq> Inl (AssertionError emptyWitnessPathMessage)"
  by (induction edges arbitrary: stack)
     (auto split: sum.splits simp: validateTransition_not_empty_assertion)

lemma validate_not_empty_assertion:
  "validate I schema stack = Some r \<Longrightarrow> r \<noteq> Inl (AssertionError emptyWitnessPathMessage)"
proof (induction rule: validate.raw_induct [rotated 1, consumes 1])
  case (1 validate' I schema stack r)
  then show ?case
    by (auto split: list.splits sum.splits
        simp: handleState_def handleEdges_not_empty_assertion)
qed

lemma initial_not_empty_assertion:
  "initial I sg k sub \<noteq> Inl (AssertionError emptyWitnessPathMessage)"
  by (auto simp: initial_def initialSubgraphPaths_def newValidationState_def
      emptyWitnessPathMessage_def noSubgraphRootMessage_def unexpectedRootTypeMessage_def
      invalidStateMessage_def split: sum.splits option.splits if_splits)

lemma initialStack_not_empty_assertion:
  "initialStack I sg sub ks stack \<noteq> Inl (AssertionError emptyWitnessPathMessage)"
  by (induction ks arbitrary: stack)
     (auto split: sum.splits simp: initial_not_empty_assertion)

text \<open>
  C10: every \<^verbatim>\<open>ValidationError\<close> that \<^verbatim>\<open>validateTransition\<close> raises carries the prior
  supergraph path extended by the current edge, which has at least one edge; so the
  assertion of \<^verbatim>\<open>buildWitnessOperation\<close> on an empty path fires neither in
  \<^verbatim>\<open>validateTransition\<close> nor anywhere in the loop of \<^verbatim>\<open>validate\<close> or in the traversal.
\<close>

theorem validationError_path_nonempty:
  "(validateTransition I st schema edge = Inl (ValidationErrorExn err) \<longrightarrow>
      supergraphUnsatisfiablePath err = add (supergraphPath st) (edge_transition edge) edge \<and>
      0 < size_path (supergraphUnsatisfiablePath err)) \<and>
   validateTransition I st schema edge \<noteq> Inl (AssertionError emptyWitnessPathMessage) \<and>
   validate I schema stack \<noteq> Some (Inl (AssertionError emptyWitnessPathMessage)) \<and>
   runTraversal I sg sub \<noteq> Some (Inl (AssertionError emptyWitnessPathMessage))"
proof (intro conjI impI)
  assume "validateTransition I st schema edge = Inl (ValidationErrorExn err)"
  then have "validationError (add (supergraphPath st) (edge_transition edge) edge) (subgraphPaths st)
               = Inr err"
    by (auto simp: validateTransition_cases newValidationState_def split: if_splits sum.splits
        dest: validationError_error)
  then show "supergraphUnsatisfiablePath err = add (supergraphPath st) (edge_transition edge) edge"
    by (simp add: validationError_cases)
  then show "0 < size_path (supergraphUnsatisfiablePath err)"
    by (simp add: size_path_add)
next
  show "validateTransition I st schema edge \<noteq> Inl (AssertionError emptyWitnessPathMessage)"
    by (rule validateTransition_not_empty_assertion)
next
  show "validate I schema stack \<noteq> Some (Inl (AssertionError emptyWitnessPathMessage))"
    using validate_not_empty_assertion by blast
next
  show "runTraversal I sg sub \<noteq> Some (Inl (AssertionError emptyWitnessPathMessage))"
    using validate_not_empty_assertion initialStack_not_empty_assertion [of I sg sub "rootKinds sg" "[]"]
    by (auto simp: runTraversal_def split: sum.splits)
qed

theorem validationError_path_nonempty_witness:
  "\<exists>err. validateTransition exImports exUserState (Some (Schema ''supergraph'')) eAddress
            = Inl (ValidationErrorExn err) \<and>
         supergraphUnsatisfiablePath err
            = add (supergraphPath exUserState) (edge_transition eAddress) eAddress \<and>
         size_path (supergraphUnsatisfiablePath err) = 2"
proof -
  have "isValidationError
          (validateTransition exImports exUserState (Some (Schema ''supergraph'')) eAddress)"
    by code_simp
  then obtain err where
    err: "validateTransition exImports exUserState (Some (Schema ''supergraph'')) eAddress
            = Inl (ValidationErrorExn err)"
    using isValidationErrorE by blast
  have "size_path (add (supergraphPath exUserState) (edge_transition eAddress) eAddress) = 2"
    by (simp add: add_def size_path_def exUserState_def)
  with err validationError_path_nonempty
         [of exImports exUserState "Some (Schema ''supergraph'')" eAddress err]
  show ?thesis by auto
qed

lemma newValidationState_Inr:
  "newValidationState sp subs = Inr st \<Longrightarrow>
     st = \<lparr>supergraphPath = sp, subgraphPaths = subs\<rparr> \<and> stateInvariant st"
  by (auto simp: newValidationState_def stateInvariant_def split: if_splits)

lemma newValidationState_Inl:
  "newValidationState sp subs = Inl x \<Longrightarrow> x = AssertionError invalidStateMessage"
  by (auto simp: newValidationState_def split: if_splits)

lemma validateTransition_Inr:
  "validateTransition I st0 schema edge = Inr st \<Longrightarrow>
     st = \<lparr>supergraphPath = add (supergraphPath st0) (edge_transition edge) edge,
           subgraphPaths = newSubgraphPaths I st0 schema edge\<rparr> \<and>
     stateInvariant st \<and> newSubgraphPaths I st0 schema edge \<noteq> [] \<and> edge_conditions edge = None"
  by (auto simp: validateTransition_cases split: if_splits sum.splits dest: newValidationState_Inr)

lemma validateTransition_Inl:
  "validateTransition I st schema edge = Inl x \<Longrightarrow>
     (x = AssertionError conditionedEdgeMessage \<and> edge_conditions edge \<noteq> None) \<or>
     x = AssertionError invalidStateMessage \<or> (\<exists>m. x = TypeError m) \<or>
     (\<exists>err. x = ValidationErrorExn err)"
  by (auto simp: validateTransition_cases split: if_splits sum.splits
      dest: newValidationState_Inl validationError_error)

lemma initialSubgraphPaths_Inl:
  "initialSubgraphPaths I k sub = Inl x \<Longrightarrow>
     x = AssertionError noSubgraphRootMessage \<or> x = AssertionError unexpectedRootTypeMessage"
  by (auto simp: initialSubgraphPaths_def fromGraphRoot_def split: option.splits if_splits)

lemma initial_Inl:
  "initial I sg k sub = Inl x \<Longrightarrow>
     x = AssertionError noSubgraphRootMessage \<or> x = AssertionError unexpectedRootTypeMessage \<or>
     x = AssertionError invalidStateMessage \<or> (\<exists>m. x = TypeError m)"
  by (auto simp: initial_def split: sum.splits option.splits
      dest: initialSubgraphPaths_Inl newValidationState_Inl)

lemma initial_Inr:
  "initial I sg k sub = Inr st \<Longrightarrow>
     stateInvariant st \<and> fromGraphRoot sg k = Some (supergraphPath st) \<and>
     initialSubgraphPaths I k sub = Inr (subgraphPaths st)"
  by (auto simp: initial_def split: sum.splits option.splits dest: newValidationState_Inr)

lemma reduceMainPath_invariant:
  "reduceMainPath (\<lambda>state edge. validateTransition I state schema edge) st0 edges = Inr st \<Longrightarrow>
   stateInvariant st0 \<Longrightarrow> stateInvariant st"
  by (induction edges arbitrary: st0) (auto split: sum.splits dest: validateTransition_Inr)

lemma replayPath_invariant:
  "replayPath I p sub = Inr st \<Longrightarrow> stateInvariant st"
  by (auto simp: replayPath_def Let_def split: if_splits sum.splits
      dest: initial_Inr reduceMainPath_invariant)

lemma computeSubgraphPaths_traversal:
  "computeSubgraphPaths I p sub = Inr res \<Longrightarrow> traversal res = Some st \<Longrightarrow> replayPath I p sub = Inr st"
  by (auto simp: computeSubgraphPaths_def split: sum.splits exn.splits)

text \<open>
  C4: a state made by the constructor satisfies the invariant, and the constructor
  refuses, with its assertion, paths that violate it; so do the states that \<^verbatim>\<open>initial\<close>,
  \<^verbatim>\<open>validateTransition\<close> and the replay of \<^verbatim>\<open>computeSubgraphPaths\<close> return, which all
  come from the constructor.
\<close>

theorem validationState_invariant:
  "(newValidationState sp subs = Inr st \<longrightarrow> stateInvariant st) \<and>
   (\<not> stateInvariant \<lparr>supergraphPath = sp, subgraphPaths = subs\<rparr> \<longrightarrow>
      newValidationState sp subs = Inl (AssertionError invalidStateMessage)) \<and>
   (initial I sg k sub = Inr st \<longrightarrow> stateInvariant st) \<and>
   (validateTransition I st0 schema edge = Inr st \<longrightarrow> stateInvariant st) \<and>
   (computeSubgraphPaths I p sub = Inr res \<longrightarrow> traversal res = Some st \<longrightarrow> stateInvariant st)"
proof (intro conjI impI)
  show "newValidationState sp subs = Inr st \<Longrightarrow> stateInvariant st"
    by (simp add: newValidationState_Inr)
  show "\<not> stateInvariant \<lparr>supergraphPath = sp, subgraphPaths = subs\<rparr> \<Longrightarrow>
        newValidationState sp subs = Inl (AssertionError invalidStateMessage)"
    by (simp add: newValidationState_def stateInvariant_def)
  show "initial I sg k sub = Inr st \<Longrightarrow> stateInvariant st"
    by (simp add: initial_Inr)
  show "validateTransition I st0 schema edge = Inr st \<Longrightarrow> stateInvariant st"
    by (simp add: validateTransition_Inr)
  show "computeSubgraphPaths I p sub = Inr res \<Longrightarrow> traversal res = Some st \<Longrightarrow> stateInvariant st"
    using computeSubgraphPaths_traversal replayPath_invariant by blast
qed

theorem validationState_invariant_witness:
  "(\<exists>st. initial exImports exSupergraph RootQuery exSubgraphs = Inr st \<and> stateInvariant st) \<and>
   \<not> stateInvariant \<lparr>supergraphPath = exReplayPath, subgraphPaths = [exInitialPath]\<rparr> \<and>
   newValidationState exReplayPath [exInitialPath] = Inl (AssertionError invalidStateMessage) \<and>
   (\<exists>st. validateTransition exImports exUserState None eName = Inr st \<and> stateInvariant st) \<and>
   (\<exists>res st. computeSubgraphPaths exImports exReplayPath exSubgraphs = Inr res \<and>
      traversal res = Some st \<and> stateInvariant st)"
proof (intro conjI)
  have "\<not> isl (initial exImports exSupergraph RootQuery exSubgraphs)"
    by code_simp
  then obtain st where "initial exImports exSupergraph RootQuery exSubgraphs = Inr st"
    by (cases "initial exImports exSupergraph RootQuery exSubgraphs") auto
  then show "\<exists>st. initial exImports exSupergraph RootQuery exSubgraphs = Inr st \<and> stateInvariant st"
    using validationState_invariant by blast
next
  show bad: "\<not> stateInvariant \<lparr>supergraphPath = exReplayPath, subgraphPaths = [exInitialPath]\<rparr>"
    by code_simp
  then show "newValidationState exReplayPath [exInitialPath] = Inl (AssertionError invalidStateMessage)"
    using validationState_invariant by blast
next
  have "\<not> isl (validateTransition exImports exUserState None eName)"
    by code_simp
  then obtain st where "validateTransition exImports exUserState None eName = Inr st"
    by (cases "validateTransition exImports exUserState None eName") auto
  then show "\<exists>st. validateTransition exImports exUserState None eName = Inr st \<and> stateInvariant st"
    using validationState_invariant by blast
next
  have "case computeSubgraphPaths exImports exReplayPath exSubgraphs of
          Inl e \<Rightarrow> False | Inr res \<Rightarrow> traversal res \<noteq> None"
    by code_simp
  then obtain res st where
    "computeSubgraphPaths exImports exReplayPath exSubgraphs = Inr res" "traversal res = Some st"
    by (auto split: sum.splits)
  then show "\<exists>res st. computeSubgraphPaths exImports exReplayPath exSubgraphs = Inr res \<and>
      traversal res = Some st \<and> stateInvariant st"
    using validationState_invariant by blast
qed





lemma hasAnyEdgeConditions_iff:
  "hasAnyEdgeConditions p \<longleftrightarrow> (\<exists>e \<in> set (map fst (elements p)). edge_conditions e \<noteq> None)"
  by (auto simp: hasAnyEdgeConditions_def elements_def list_ex_iff)

lemma fromGraphRoot_Some:
  "fromGraphRoot g k = Some p \<Longrightarrow>
     p = \<lparr>path_graph = g, path_root = path_root p, path_rootKind = k, path_steps = []\<rparr> \<and>
     root g k = Some (path_root p)"
  by (auto simp: fromGraphRoot_def split: option.splits)

lemma stepError_mono: "stepError es x \<Longrightarrow> set es \<subseteq> set es' \<Longrightarrow> stepError es' x"
  by (auto simp: stepError_def)

lemma validateTransition_stepError:
  "validateTransition I st schema edge = Inl x \<Longrightarrow> stepError [edge] x"
  by (drule validateTransition_Inl) (auto simp: stepError_def)

lemma reduceMainPath_stepError:
  "reduceMainPath (\<lambda>state edge. validateTransition I state schema edge) st0 edges = Inl x \<Longrightarrow>
   stepError edges x"
proof (induction edges arbitrary: st0)
  case Nil
  then show ?case by simp
next
  case (Cons e es)
  show ?case
  proof (cases "validateTransition I st0 schema e")
    case (Inl y)
    with Cons.prems have "x = y" by simp
    with validateTransition_stepError [OF Inl] show ?thesis
      using stepError_mono [of "[e]" x "e # es"] by auto
  next
    case (Inr st1)
    with Cons have "stepError es x" by simp
    then show ?thesis using stepError_mono [of es x "e # es"] by auto
  qed
qed

lemma handleEdges_stepError:
  "handleEdges I schema st edges stack = Inl x \<Longrightarrow> stepError edges x"
proof (induction edges arbitrary: stack)
  case Nil
  then show ?case by simp
next
  case (Cons e es)
  show ?case
  proof (cases "validateTransition I st schema e")
    case (Inl y)
    with Cons.prems have "x = y" by simp
    with validateTransition_stepError [OF Inl] show ?thesis
      using stepError_mono [of "[e]" x "e # es"] by auto
  next
    case (Inr st1)
    with Cons have "stepError es x" by (auto split: if_splits)
    then show ?thesis using stepError_mono [of es x "e # es"] by auto
  qed
qed

lemma stepError_messages:
  "stepError edges (AssertionError pathConditionsMessage) = False"
  "\<forall>e \<in> set edges. edge_conditions e = None \<Longrightarrow>
     stepError edges (AssertionError conditionedEdgeMessage) = False"
  by (auto simp: stepError_def pathConditionsMessage_def conditionedEdgeMessage_def
      invalidStateMessage_def)

lemma initial_not_conditioned:
  "initial I sg k sub \<noteq> Inl (AssertionError conditionedEdgeMessage)"
  "initial I sg k sub \<noteq> Inl (AssertionError pathConditionsMessage)"
  using initial_Inl [of I sg k sub]
  by (auto simp: conditionedEdgeMessage_def pathConditionsMessage_def noSubgraphRootMessage_def
      unexpectedRootTypeMessage_def invalidStateMessage_def)

lemma replayPath_Inl:
  assumes "replayPath I p sub = Inl x" "\<not> hasAnyEdgeConditions p"
  shows "x \<noteq> AssertionError pathConditionsMessage \<and> x \<noteq> AssertionError conditionedEdgeMessage"
proof (cases "initial I (path_graph p) (path_rootKind p) sub")
  case (Inl y)
  with assms have "x = y" by (simp add: replayPath_def)
  with Inl initial_not_conditioned [of I "path_graph p" "path_rootKind p" sub]
  show ?thesis by auto
next
  case (Inr st0)
  with assms have "stepError (map fst (elements p)) x"
    by (auto simp: replayPath_def dest: reduceMainPath_stepError)
  moreover from assms(2) have "\<forall>e \<in> set (map fst (elements p)). edge_conditions e = None"
    by (simp add: hasAnyEdgeConditions_iff)
  ultimately show ?thesis
    using stepError_messages by blast
qed

lemma computeSubgraphPaths_Inl:
  "computeSubgraphPaths I p sub = Inl x \<longleftrightarrow>
     replayPath I p sub = Inl x \<and> (\<forall>err. x \<noteq> ValidationErrorExn err)"
  by (auto simp: computeSubgraphPaths_def split: sum.splits exn.splits)

lemma nextEdges_unconditioned:
  "unconditionedState st \<Longrightarrow> \<forall>e \<in> set (nextEdges (supergraphPath st)). edge_conditions e = None"
  by (auto simp: unconditionedState_def unconditionedGraph_def nextEdges_def outEdges_def list_all_iff)

lemma validateTransition_unconditionedState:
  "validateTransition I st schema e = Inr st' \<Longrightarrow> unconditionedState st \<Longrightarrow> unconditionedState st'"
  by (auto dest!: validateTransition_Inr simp: unconditionedState_def add_def)

lemma handleEdges_unconditionedState:
  "handleEdges I schema st edges stack = Inr stack' \<Longrightarrow> unconditionedState st \<Longrightarrow>
   list_all unconditionedState stack \<Longrightarrow> list_all unconditionedState stack'"
proof (induction edges arbitrary: stack)
  case Nil
  then show ?case by simp
next
  case (Cons e es)
  then obtain st1 where st1: "validateTransition I st schema e = Inr st1"
    by (auto split: sum.splits)
  then have "unconditionedState st1"
    using Cons.prems(2) validateTransition_unconditionedState by blast
  with Cons st1 show ?case by (auto split: if_splits)
qed

lemma validate_unconditioned:
  "validate I schema stack = Some r \<Longrightarrow> list_all unconditionedState stack \<Longrightarrow>
   r \<noteq> Inl (AssertionError conditionedEdgeMessage)"
proof (induction rule: validate.raw_induct [rotated 1, consumes 1])
  case (1 validate' I schema stack r)
  note IH = 1(1) and eq = 1(2) and inv = 1(3)
  show ?case
  proof (cases stack)
    case Nil
    with eq show ?thesis by auto
  next
    case (Cons st rest)
    with inv have st: "unconditionedState st" and rest: "list_all unconditionedState rest"
      by simp_all
    show ?thesis
    proof (cases "handleState I schema st rest")
      case (Inl x)
      then have "stepError (nextEdges (supergraphPath st)) x"
        by (simp add: handleState_def handleEdges_stepError)
      with nextEdges_unconditioned [OF st]
      have "x \<noteq> AssertionError conditionedEdgeMessage"
        using stepError_messages(2) by blast
      with Inl eq Cons show ?thesis by auto
    next
      case (Inr stack')
      with eq Cons have "validate' I schema stack' = Some r" by simp
      moreover from Inr st rest have "list_all unconditionedState stack'"
        using handleEdges_unconditionedState by (auto simp: handleState_def)
      ultimately show ?thesis using IH by blast
    qed
  qed
qed

lemma initialStack_unconditioned:
  "unconditionedGraph sg \<Longrightarrow> list_all unconditionedState stack \<Longrightarrow>
   initialStack I sg sub ks stack \<noteq> Inl (AssertionError conditionedEdgeMessage) \<and>
   (\<forall>stack'. initialStack I sg sub ks stack = Inr stack' \<longrightarrow> list_all unconditionedState stack')"
proof (induction ks arbitrary: stack)
  case Nil
  then show ?case by simp
next
  case (Cons k ks)
  show ?case
  proof (cases "initial I sg k sub")
    case (Inl x)
    with initial_not_conditioned(1) [of I sg k sub] show ?thesis by auto
  next
    case (Inr st)
    then have "path_graph (supergraphPath st) = sg"
      using initial_Inr [OF Inr] fromGraphRoot_Some [of sg k "supergraphPath st"]
      by (metis GraphPath.select_convs(1))
    then have "unconditionedState st"
      using Cons.prems(1) by (simp add: unconditionedState_def)
    with Cons.IH [of "st # stack"] Cons.prems Inr show ?thesis by simp
  qed
qed

lemma runTraversal_unconditioned:
  assumes "unconditionedGraph sg"
  shows "runTraversal I sg sub \<noteq> Some (Inl (AssertionError conditionedEdgeMessage))"
proof (cases "initialStack I sg sub (rootKinds sg) []")
  case (Inl x)
  with initialStack_unconditioned [OF assms, of "[]" I sub "rootKinds sg"]
  show ?thesis by (auto simp: runTraversal_def)
next
  case (Inr stack)
  with initialStack_unconditioned [OF assms, of "[]" I sub "rootKinds sg"]
  have "list_all unconditionedState stack" by simp
  with Inr validate_unconditioned [of I "firstSource sg" stack]
  show ?thesis by (auto simp: runTraversal_def)
qed

text \<open>
  C9: a supergraph edge with conditions makes \<^verbatim>\<open>validateTransition\<close> fail with its
  assertion, and a supergraph path with edge conditions makes \<^verbatim>\<open>computeSubgraphPaths\<close>
  fail with its assertion, which it throws on rather than returning it as an error; where
  the edge, the path or the whole supergraph is unconditioned, these assertions are not
  reached.
\<close>

theorem conditioned_supergraph_edge_asserts:
  "(edge_conditions edge \<noteq> None \<longrightarrow>
      validateTransition I st schema edge = Inl (AssertionError conditionedEdgeMessage)) \<and>
   (hasAnyEdgeConditions p \<longrightarrow>
      computeSubgraphPaths I p sub = Inl (AssertionError pathConditionsMessage)) \<and>
   (edge_conditions edge = None \<longrightarrow>
      validateTransition I st schema edge \<noteq> Inl (AssertionError conditionedEdgeMessage)) \<and>
   (\<not> hasAnyEdgeConditions p \<longrightarrow>
      computeSubgraphPaths I p sub \<noteq> Inl (AssertionError pathConditionsMessage) \<and>
      computeSubgraphPaths I p sub \<noteq> Inl (AssertionError conditionedEdgeMessage)) \<and>
   (unconditionedGraph sg \<longrightarrow>
      runTraversal I sg sub \<noteq> Some (Inl (AssertionError conditionedEdgeMessage)))"
proof (intro conjI impI)
  show "edge_conditions edge \<noteq> None \<Longrightarrow>
        validateTransition I st schema edge = Inl (AssertionError conditionedEdgeMessage)"
    by (simp add: validateTransition_cases)
  show "hasAnyEdgeConditions p \<Longrightarrow>
        computeSubgraphPaths I p sub = Inl (AssertionError pathConditionsMessage)"
    by (simp add: computeSubgraphPaths_def replayPath_def)
  show "edge_conditions edge = None \<Longrightarrow>
        validateTransition I st schema edge \<noteq> Inl (AssertionError conditionedEdgeMessage)"
    using validateTransition_stepError [of I st schema edge] stepError_messages(2) [of "[edge]"]
    by auto
  show "\<not> hasAnyEdgeConditions p \<Longrightarrow>
        computeSubgraphPaths I p sub \<noteq> Inl (AssertionError pathConditionsMessage)"
    using replayPath_Inl by (auto simp: computeSubgraphPaths_Inl)
  show "\<not> hasAnyEdgeConditions p \<Longrightarrow>
        computeSubgraphPaths I p sub \<noteq> Inl (AssertionError conditionedEdgeMessage)"
    using replayPath_Inl by (auto simp: computeSubgraphPaths_Inl)
  show "unconditionedGraph sg \<Longrightarrow>
        runTraversal I sg sub \<noteq> Some (Inl (AssertionError conditionedEdgeMessage))"
    by (rule runTraversal_unconditioned)
qed

theorem conditioned_supergraph_edge_asserts_witness:
  "validateTransition exImports exUserState None eConditioned
     = Inl (AssertionError conditionedEdgeMessage) \<and>
   computeSubgraphPaths exImports exConditionedPath exSubgraphs
     = Inl (AssertionError pathConditionsMessage) \<and>
   validateTransition exImports exUserState None eName
     \<noteq> Inl (AssertionError conditionedEdgeMessage) \<and>
   computeSubgraphPaths exImports exReplayPath exSubgraphs
     \<noteq> Inl (AssertionError pathConditionsMessage) \<and>
   runTraversal exImports exSupergraph exSubgraphs
     \<noteq> Some (Inl (AssertionError conditionedEdgeMessage))"
proof -
  have c: "edge_conditions eConditioned \<noteq> None" by (simp add: eConditioned_def)
  have n: "edge_conditions eName = None" by (simp add: eName_def mkEdge_def)
  have pc: "hasAnyEdgeConditions exConditionedPath" by code_simp
  have pn: "\<not> hasAnyEdgeConditions exReplayPath" by code_simp
  have g: "unconditionedGraph exSupergraph" by code_simp
  from c pc conditioned_supergraph_edge_asserts
         [of eConditioned exImports exUserState None exConditionedPath exSubgraphs exSupergraph]
       n pn g conditioned_supergraph_edge_asserts
         [of eName exImports exUserState None exReplayPath exSubgraphs exSupergraph]
  show ?thesis by blast
qed

lemma handleEdges_append:
  "handleEdges I schema st (pre @ post) stack =
     (case handleEdges I schema st pre stack of
        Inl e \<Rightarrow> Inl e
      | Inr stack1 \<Rightarrow> handleEdges I schema st post stack1)"
  by (induction pre arbitrary: stack) (auto split: sum.splits)

text \<open>
  C1: \<^verbatim>\<open>validateGraphComposition\<close> returns an object without error when the traversal
  succeeds, returns a \<^verbatim>\<open>ValidationError\<close> of the traversal as the error of its result,
  and lets every other exception through; the error of the traversal is that of the first
  step that raises, since the loop over the edges and the loop over the stack both stop
  there.
\<close>

theorem validateGraphComposition_results:
  "(runTraversal I sg sub = Some (Inr ()) \<longrightarrow>
      validateGraphComposition I sg sub = Some (Inr \<lparr>error = None\<rparr>)) \<and>
   (runTraversal I sg sub = Some (Inl (ValidationErrorExn err)) \<longrightarrow>
      validateGraphComposition I sg sub = Some (Inr \<lparr>error = Some err\<rparr>)) \<and>
   (runTraversal I sg sub = Some (Inl x) \<longrightarrow> (\<forall>e. x \<noteq> ValidationErrorExn e) \<longrightarrow>
      validateGraphComposition I sg sub = Some (Inl x)) \<and>
   (handleEdges I schema st pre stack = Inr pushed \<longrightarrow>
    validateTransition I st schema edge = Inl y \<longrightarrow>
      handleEdges I schema st (pre @ edge # post) stack = Inl y) \<and>
   (handleState I schema st rest = Inl y \<longrightarrow> validate I schema (st # rest) = Some (Inl y))"
proof (intro conjI impI)
  show "runTraversal I sg sub = Some (Inr ()) \<Longrightarrow>
        validateGraphComposition I sg sub = Some (Inr \<lparr>error = None\<rparr>)"
    by (simp add: validateGraphComposition_def)
  show "runTraversal I sg sub = Some (Inl (ValidationErrorExn err)) \<Longrightarrow>
        validateGraphComposition I sg sub = Some (Inr \<lparr>error = Some err\<rparr>)"
    by (simp add: validateGraphComposition_def)
  show "runTraversal I sg sub = Some (Inl x) \<Longrightarrow> \<forall>e. x \<noteq> ValidationErrorExn e \<Longrightarrow>
        validateGraphComposition I sg sub = Some (Inl x)"
    by (cases x) (simp_all add: validateGraphComposition_def)
  show "handleEdges I schema st pre stack = Inr pushed \<Longrightarrow>
        validateTransition I st schema edge = Inl y \<Longrightarrow>
        handleEdges I schema st (pre @ edge # post) stack = Inl y"
    by (simp add: handleEdges_append)
  show "handleState I schema st rest = Inl y \<Longrightarrow> validate I schema (st # rest) = Some (Inl y)"
    by (subst validate.simps) simp
qed

theorem validateGraphComposition_results_witness:
  "validateGraphComposition exImports exSupergraph exSubgraphs = Some (Inr \<lparr>error = None\<rparr>) \<and>
   (\<exists>err. runTraversal exImports exSupergraphGap exSubgraphs = Some (Inl (ValidationErrorExn err)) \<and>
      validateGraphComposition exImports exSupergraphGap exSubgraphs = Some (Inr \<lparr>error = Some err\<rparr>)) \<and>
   validateGraphComposition exImports exSupergraph exNoRootSubgraphs
     = Some (Inl (AssertionError noSubgraphRootMessage)) \<and>
   (\<exists>y. handleEdges exImports None exUserState [eName, eFriend, eAddress, eName] []  = Inl y \<and>
      validateTransition exImports exUserState None eAddress = Inl y)"
proof (intro conjI)
  have "runTraversal exImports exSupergraph exSubgraphs = Some (Inr ())"
    by code_simp
  with validateGraphComposition_results [of exImports exSupergraph exSubgraphs]
  show "validateGraphComposition exImports exSupergraph exSubgraphs = Some (Inr \<lparr>error = None\<rparr>)"
    by blast
next
  have "case runTraversal exImports exSupergraphGap exSubgraphs of
          Some (Inl (ValidationErrorExn err)) \<Rightarrow> True | _ \<Rightarrow> False"
    by code_simp
  then obtain err where
    "runTraversal exImports exSupergraphGap exSubgraphs = Some (Inl (ValidationErrorExn err))"
    by (auto split: option.splits sum.splits exn.splits)
  with validateGraphComposition_results [of exImports exSupergraphGap exSubgraphs err]
  show "\<exists>err. runTraversal exImports exSupergraphGap exSubgraphs = Some (Inl (ValidationErrorExn err)) \<and>
      validateGraphComposition exImports exSupergraphGap exSubgraphs = Some (Inr \<lparr>error = Some err\<rparr>)"
    by blast
next
  have "runTraversal exImports exSupergraph exNoRootSubgraphs
          = Some (Inl (AssertionError noSubgraphRootMessage))"
    by code_simp
  with validateGraphComposition_results
         [of exImports exSupergraph exNoRootSubgraphs _ "AssertionError noSubgraphRootMessage"]
  show "validateGraphComposition exImports exSupergraph exNoRootSubgraphs
          = Some (Inl (AssertionError noSubgraphRootMessage))"
    by blast
next
  have "\<not> isl (handleEdges exImports None exUserState [eName, eFriend] [])"
    by code_simp
  then obtain stack1 where pre: "handleEdges exImports None exUserState [eName, eFriend] [] = Inr stack1"
    by (cases "handleEdges exImports None exUserState [eName, eFriend] []") auto
  have "isl (validateTransition exImports exUserState None eAddress)"
    by code_simp
  then obtain y where y: "validateTransition exImports exUserState None eAddress = Inl y"
    by (cases "validateTransition exImports exUserState None eAddress") auto
  from pre y validateGraphComposition_results
     [where I = exImports and schema = None and st = exUserState and pre = "[eName, eFriend]"
        and stack = "[]" and pushed = stack1 and edge = eAddress and y = y and post = "[eName]"]
  have "handleEdges exImports None exUserState ([eName, eFriend] @ eAddress # [eName]) [] = Inl y"
    by blast
  with y show "\<exists>y. handleEdges exImports None exUserState [eName, eFriend, eAddress, eName] [] = Inl y \<and>
      validateTransition exImports exUserState None eAddress = Inl y"
    by simp
qed

lemma tail_rootPath: "tail (rootPath g k v) = v"
  by (simp add: tail_def rootPath_def)

lemma fromGraphRoot_rootPath:
  "fromGraphRoot g k = (case root g k of None \<Rightarrow> None | Some v \<Rightarrow> Some (rootPath g k v))"
  by (simp add: fromGraphRoot_def rootPath_def split: option.splits)

text \<open>
  C8, amended: for a root kind of the supergraph, \<^verbatim>\<open>initial\<close> fails with an assertion when
  the services graph has no root of that kind, and also when the type of the services
  root is not named as the federated root of that kind, or when an outgoing edge of the
  services root leads to a type named differently from the supergraph root's type;
  otherwise it produces the state of the supergraph root vertex and of one path per
  outgoing edge of the services root, extended by that edge under a free transition.
\<close>

theorem initial_state:
  assumes "root sg k = Some v"
  shows "(root sub k = None \<longrightarrow> initial I sg k sub = Inl (AssertionError noSubgraphRootMessage)) \<and>
   (\<forall>r. root sub k = Some r \<longrightarrow>
      (type_name (vertex_type r) \<noteq> federatedGraphRootTypeName I k \<longrightarrow>
         initial I sg k sub = Inl (AssertionError unexpectedRootTypeMessage)) \<and>
      (type_name (vertex_type r) = federatedGraphRootTypeName I k \<longrightarrow>
         (list_all (\<lambda>e. type_name (vertex_type (edge_tail e)) = type_name (vertex_type v))
            (outEdges sub r) \<longrightarrow>
            initial I sg k sub = Inr (initialState sg k sub v r)) \<and>
         (\<not> list_all (\<lambda>e. type_name (vertex_type (edge_tail e)) = type_name (vertex_type v))
            (outEdges sub r) \<longrightarrow>
            initial I sg k sub = Inl (AssertionError invalidStateMessage))))"
  using assms
  by (auto simp: initial_def initialSubgraphPaths_def fromGraphRoot_rootPath newValidationState_def
      initialState_def tail_add tail_rootPath list_all_iff)

theorem initial_state_witness:
  "initial exImports exSupergraph RootQuery exSubgraphs =
     Inr (initialState exSupergraph RootQuery exSubgraphs superQuery subRoot) \<and>
   length (subgraphPaths (initialState exSupergraph RootQuery exSubgraphs superQuery subRoot)) = 1 \<and>
   initial exImports exSupergraph RootQuery exNoRootSubgraphs
     = Inl (AssertionError noSubgraphRootMessage)"
proof -
  have sg: "root exSupergraph RootQuery = Some superQuery"
    by (simp add: root_def exSupergraph_def)
  have sub: "root exSubgraphs RootQuery = Some subRoot"
    by (simp add: root_def exSubgraphs_def)
  have none: "root exNoRootSubgraphs RootQuery = None"
    by (simp add: root_def exNoRootSubgraphs_def)
  have name: "type_name (vertex_type subRoot) = federatedGraphRootTypeName exImports RootQuery"
    by (simp add: subRoot_def mkVertex_def tFederatedRoot_def exImports_def)
  have tails: "list_all (\<lambda>e. type_name (vertex_type (edge_tail e)) = type_name (vertex_type superQuery))
            (outEdges exSubgraphs subRoot)"
    by code_simp
  have len: "length (subgraphPaths (initialState exSupergraph RootQuery exSubgraphs superQuery subRoot)) = 1"
    by code_simp
  from initial_state [OF sg, of exSubgraphs exImports] sub name tails
       initial_state [OF sg, of exNoRootSubgraphs exImports] none len
  show ?thesis by simp
qed

text \<open>
  C8 as stated fails: both example graphs have a query root, the services root is not
  named as the federated root, and \<^verbatim>\<open>initial\<close> raises the assertion on the root type,
  which is not the assertion on a missing root.
\<close>

theorem initial_state_counterexample:
  "root exSupergraph RootQuery = Some superQuery \<and>
   root exUnnamedRootSubgraphs RootQuery = Some subQuery \<and>
   initial exImports exSupergraph RootQuery exUnnamedRootSubgraphs
     = Inl (AssertionError unexpectedRootTypeMessage) \<and>
   unexpectedRootTypeMessage \<noteq> noSubgraphRootMessage"
  by code_simp

lemma update_fresh: "k \<notin> fst ` set al \<Longrightarrow> AList.update k v al = al @ [(k, v)]"
  by (induction al) auto

lemma buildWitnessArgs_entries:
  "buildWitnessArgs defs acc = Inr args \<Longrightarrow> distinct (map arg_name defs) \<Longrightarrow>
   set (map arg_name defs) \<inter> fst ` set acc = {} \<Longrightarrow>
   \<exists>new. args = acc @ new \<and> list_all2 argumentEntry defs new"
proof (induction defs acc rule: buildWitnessArgs.induct)
  case (1 acc)
  then show ?case by simp
next
  case (2 argDef rest acc)
  from "2.prems"(1) obtain v where
    v: "generateWitnessValue (arg_type argDef) = Inr v"
    and rest: "buildWitnessArgs rest (AList.update (arg_name argDef) v acc) = Inr args"
    by (auto split: sum.splits)
  from "2.prems"(3) have fresh: "arg_name argDef \<notin> fst ` set acc" by auto
  then have upd: "AList.update (arg_name argDef) v acc = acc @ [(arg_name argDef, v)]"
    by (rule update_fresh)
  from "2.prems"(2,3) have
    "distinct (map arg_name rest)"
    "set (map arg_name rest) \<inter> fst ` set (AList.update (arg_name argDef) v acc) = {}"
    by (auto simp: upd)
  from "2.IH" [OF v rest this] obtain new where
    new: "args = AList.update (arg_name argDef) v acc @ new" "list_all2 argumentEntry rest new"
    by blast
  then have "args = acc @ ((arg_name argDef, v) # new)"
    by (simp add: upd)
  moreover have "list_all2 argumentEntry (argDef # rest) ((arg_name argDef, v) # new)"
    using new(2) v by (simp add: argumentEntry_def)
  ultimately show ?case by blast
qed

lemma buildWitnessField_entries:
  "buildWitnessField d = Inr f \<Longrightarrow> distinct (map arg_name (arguments d)) \<Longrightarrow>
   \<exists>args. f = Field d args \<and> list_all2 argumentEntry (arguments d) args"
  using buildWitnessArgs_entries [of "arguments d" "[]"]
  by (auto simp: buildWitnessField_def split: sum.splits)

text \<open>
  C6: the witness operation of a path with an edge has the root kind of the path and the
  selection built from its edges. At an edge, with the selection \<open>sub\<close> of the edges after
  it: a field collection gives the selection set, on the type of the edge's head, of the
  one field selection of that field with \<open>sub\<close> below it, the field having one entry per
  declared argument; a downcast gives the fragment selection on the casted type with
  \<open>sub\<close> below it; a key resolution or free transition gives \<open>sub\<close> itself. Past the last
  edge the selection is absent for a leaf type and the empty selection set otherwise.
\<close>

theorem witness_structure:
  "(buildWitnessOperation p = Inr op \<longrightarrow>
      0 < size_path p \<and> op_rootKind op = path_rootKind p \<and>
      buildWitnessNextStep (map fst (elements p)) 0 = Inr (op_selectionSet op)) \<and>
   (index < length edges \<longrightarrow> buildWitnessNextStep edges (Suc index) = Inr sub \<longrightarrow>
      (\<forall>d f. edge_transition (edges ! index) = FieldCollection d \<longrightarrow> buildWitnessField d = Inr f \<longrightarrow>
         buildWitnessNextStep edges index =
           Inr (Some (SelectionSet (vertex_type (edge_head (edges ! index))) [FieldSelection f sub])) \<and>
         (distinct (map arg_name (arguments d)) \<longrightarrow>
            (\<exists>args. f = Field d args \<and> list_all2 argumentEntry (arguments d) args))) \<and>
      (\<forall>sourceType castedType. edge_transition (edges ! index) = DownCast sourceType castedType \<longrightarrow>
         buildWitnessNextStep edges index =
           Inr (Some (SelectionSet (vertex_type (edge_head (edges ! index)))
             [FragmentSelection (FragmentElement sourceType (type_name castedType)) sub]))) \<and>
      (edge_transition (edges ! index) = KeyResolution \<or>
       edge_transition (edges ! index) = FreeTransition \<longrightarrow>
         buildWitnessNextStep edges index = Inr sub)) \<and>
   (edges \<noteq> [] \<longrightarrow> length edges \<le> index \<longrightarrow>
      buildWitnessNextStep edges index = Inr (endSelection edges))"
proof (intro conjI impI allI)
  assume "buildWitnessOperation p = Inr op"
  then show "0 < size_path p" "op_rootKind op = path_rootKind p"
    "buildWitnessNextStep (map fst (elements p)) 0 = Inr (op_selectionSet op)"
    by (auto simp: buildWitnessOperation_def split: if_splits sum.splits)
next
  fix d f
  assume "index < length edges" "buildWitnessNextStep edges (Suc index) = Inr sub"
    "edge_transition (edges ! index) = FieldCollection d" "buildWitnessField d = Inr f"
  then show "buildWitnessNextStep edges index =
      Inr (Some (SelectionSet (vertex_type (edge_head (edges ! index))) [FieldSelection f sub]))"
    by (simp add: buildWitnessNextStep_step)
next
  fix d f
  assume "buildWitnessField d = Inr f" "distinct (map arg_name (arguments d))"
  then show "\<exists>args. f = Field d args \<and> list_all2 argumentEntry (arguments d) args"
    by (rule buildWitnessField_entries)
next
  fix sourceType castedType
  assume "index < length edges" "buildWitnessNextStep edges (Suc index) = Inr sub"
    "edge_transition (edges ! index) = DownCast sourceType castedType"
  then show "buildWitnessNextStep edges index =
      Inr (Some (SelectionSet (vertex_type (edge_head (edges ! index)))
        [FragmentSelection (FragmentElement sourceType (type_name castedType)) sub]))"
    by (simp add: buildWitnessNextStep_step)
next
  assume "index < length edges" "buildWitnessNextStep edges (Suc index) = Inr sub"
    "edge_transition (edges ! index) = KeyResolution \<or>
     edge_transition (edges ! index) = FreeTransition"
  then show "buildWitnessNextStep edges index = Inr sub"
    by (auto simp: buildWitnessNextStep_step)
next
  assume "edges \<noteq> []" "length edges \<le> index"
  then show "buildWitnessNextStep edges index = Inr (endSelection edges)"
    by (simp add: buildWitnessNextStep_end endSelection_def)
qed

theorem witness_structure_witness:
  "buildWitnessOperation exWitnessPath =
     Inr \<lparr>op_rootKind = RootQuery,
          op_selectionSet = Some (SelectionSet tQuery [FieldSelection (Field fMe [])
            (Some (SelectionSet tUser [FragmentSelection (FragmentElement tUser ''Admin'')
              (Some (SelectionSet tAdmin [FieldSelection exAddressField None]))]))])\<rparr> \<and>
   list_all2 argumentEntry (arguments fAddress) [(''filter'', JObject [(''field'', JString ''A string value'')])]"
proof -
  let ?E = exWitnessEdges
  have len: "length ?E = 4" "?E \<noteq> []"
    by (simp_all add: exWitnessEdges_def)
  have nth: "?E ! 0 = eFree" "?E ! 1 = eMe" "?E ! 2 = eCast" "?E ! 3 = eAdminAddress"
    by (simp_all add: exWitnessEdges_def)
  have tr: "edge_transition eFree = FreeTransition" "edge_transition eMe = FieldCollection fMe"
    "edge_transition eCast = DownCast tUser tAdmin"
    "edge_transition eAdminAddress = FieldCollection fAddress"
    by (simp_all add: eFree_def eMe_def eCast_def eAdminAddress_def mkEdge_def)
  have hd: "vertex_type (edge_head eMe) = tQuery" "vertex_type (edge_head eCast) = tUser"
    "vertex_type (edge_head eAdminAddress) = tAdmin"
    by (simp_all add: eMe_def eCast_def eAdminAddress_def mkEdge_def superQuery_def superUser_def
        superAdmin_def mkVertex_def)
  have fa: "buildWitnessField fAddress = Inr exAddressField"
    by code_simp
  have fm: "buildWitnessField fMe = Inr (Field fMe [])"
    by code_simp
  have da: "distinct (map arg_name (arguments fAddress))"
    by (simp add: fAddress_def)
  have leaf: "endSelection ?E = None"
    by code_simp
  have s4: "buildWitnessNextStep ?E 4 = Inr None"
    using witness_structure [where edges = ?E and index = 4] len leaf by simp
  have s3: "buildWitnessNextStep ?E 3 = Inr (Some (SelectionSet tAdmin [FieldSelection exAddressField None]))"
    and entries: "\<exists>args. exAddressField = Field fAddress args \<and> list_all2 argumentEntry (arguments fAddress) args"
    using witness_structure [where edges = ?E and index = 3 and sub = None] len nth tr hd fa da s4
    by (simp_all add: eval_nat_numeral)
  have s2: "buildWitnessNextStep ?E 2 = Inr (Some (SelectionSet tUser
      [FragmentSelection (FragmentElement tUser ''Admin'')
         (Some (SelectionSet tAdmin [FieldSelection exAddressField None]))]))"
    using witness_structure [where edges = ?E and index = 2
        and sub = "Some (SelectionSet tAdmin [FieldSelection exAddressField None])"]
      len nth tr hd s3
    by (simp add: tAdmin_def eval_nat_numeral)
  have s1: "buildWitnessNextStep ?E 1 = Inr (Some (SelectionSet tQuery [FieldSelection (Field fMe [])
      (Some (SelectionSet tUser [FragmentSelection (FragmentElement tUser ''Admin'')
         (Some (SelectionSet tAdmin [FieldSelection exAddressField None]))]))]))"
    using witness_structure [where edges = ?E and index = 1
        and sub = "Some (SelectionSet tUser [FragmentSelection (FragmentElement tUser ''Admin'')
         (Some (SelectionSet tAdmin [FieldSelection exAddressField None]))])"]
      len nth tr hd fm s2
    by (simp add: eval_nat_numeral)
  have s0: "buildWitnessNextStep ?E 0 = Inr (Some (SelectionSet tQuery [FieldSelection (Field fMe [])
      (Some (SelectionSet tUser [FragmentSelection (FragmentElement tUser ''Admin'')
         (Some (SelectionSet tAdmin [FieldSelection exAddressField None]))]))]))"
    using witness_structure [where edges = ?E and index = 0
        and sub = "Some (SelectionSet tQuery [FieldSelection (Field fMe [])
      (Some (SelectionSet tUser [FragmentSelection (FragmentElement tUser ''Admin'')
         (Some (SelectionSet tAdmin [FieldSelection exAddressField None]))]))])"]
      len nth tr s1
    by (simp add: eval_nat_numeral)
  have "\<not> isl (buildWitnessOperation exWitnessPath)"
    by code_simp
  then obtain op where op: "buildWitnessOperation exWitnessPath = Inr op"
    by (cases "buildWitnessOperation exWitnessPath") auto
  have els: "map fst (elements exWitnessPath) = ?E"
    by (simp add: exWitnessPath_def elements_def o_def)
  from witness_structure [where p = exWitnessPath and op = op] op els s0
  have "op_rootKind op = RootQuery"
    "op_selectionSet op = Some (SelectionSet tQuery [FieldSelection (Field fMe [])
      (Some (SelectionSet tUser [FragmentSelection (FragmentElement tUser ''Admin'')
         (Some (SelectionSet tAdmin [FieldSelection exAddressField None]))]))])"
    by (simp_all add: exWitnessPath_def)
  then have "op = \<lparr>op_rootKind = RootQuery,
          op_selectionSet = Some (SelectionSet tQuery [FieldSelection (Field fMe [])
            (Some (SelectionSet tUser [FragmentSelection (FragmentElement tUser ''Admin'')
              (Some (SelectionSet tAdmin [FieldSelection exAddressField None]))]))])\<rparr>"
    by (cases op) simp
  with op entries show ?thesis
    by (simp add: exAddressField_def)
qed

section \<open>Witness values\<close>

lemma generateWitnessValue_scalars:
  "generateWitnessValue (ScalarType ''Int'') = Inr (JNumber 0)"
  "generateWitnessValue (ScalarType ''Float'') = Inr (JNumber (314 / 100))"
  "generateWitnessValue (ScalarType ''Boolean'') = Inr (JBool True)"
  "generateWitnessValue (ScalarType ''String'') = Inr (JString ''A string value'')"
  "generateWitnessValue (ScalarType ''ID'') = Inr (JString ''<any id>'')"
  "n \<notin> {''Int'', ''Float'', ''Boolean'', ''String'', ''ID''} \<Longrightarrow>
     generateWitnessValue (ScalarType n) = Inr (JString ''<some value>'')"
  by simp_all

lemma generateWitnessValue_wrappers:
  "generateWitnessValue (EnumType n (v # vs)) = Inr (JString v)"
  "generateWitnessValue (ListType t) = Inr (JArray [])"
  "generateWitnessValue (NonNullType t) = generateWitnessValue t"
  by simp_all

lemma generateWitnessFields_keys:
  "generateWitnessFields fs obj = Inr obj' \<Longrightarrow> distinct (map inputFieldName fs) \<Longrightarrow>
   set (map inputFieldName fs) \<inter> fst ` set obj = {} \<Longrightarrow>
   map fst obj' = map fst obj @ map inputFieldName (filter keptField fs)"
proof (induction fs arbitrary: obj)
  case Nil
  then show ?case by simp
next
  case (Cons f fs)
  obtain fname ftype dflt where f: "f = InputFieldDefinition fname ftype dflt"
    by (cases f)
  show ?case
  proof (cases "keptField f")
    case False
    with Cons f show ?thesis by auto
  next
    case True
    with Cons.prems(1) f obtain v where
      v: "generateWitnessValue ftype = Inr v"
      and rest: "generateWitnessFields fs (AList.update fname v obj) = Inr obj'"
      by (auto split: sum.splits)
    from Cons.prems(3) f have "fname \<notin> fst ` set obj" by auto
    then have upd: "AList.update fname v obj = obj @ [(fname, v)]"
      by (rule update_fresh)
    from Cons.prems(2,3) f have
      "distinct (map inputFieldName fs)"
      "set (map inputFieldName fs) \<inter> fst ` set (AList.update fname v obj) = {}"
      by (auto simp: upd)
    from Cons.IH [OF rest this] True f show ?thesis
      by (simp add: upd)
  qed
qed

text \<open>
  C7: at an input object with a required field whose default value is \<^verbatim>\<open>0\<close>,
  \<^verbatim>\<open>generateWitnessValue\<close> keeps that field, although it has a default value: the test
  \<^verbatim>\<open>field.defaultValue || isNullableType(field.type!)\<close> takes a falsy default for none.
\<close>

theorem generateWitnessValue_falsy_default:
  "generateWitnessValue exPageInput =
     Inr (JObject [(''limit'', JNumber 0), (''field'', JString ''A string value'')])"
  by (simp add: exPageInput_def)

lemma generateWitnessValue_scenario:
  "generateWitnessValue exAddressFilter = Inr (JObject [(''field'', JString ''A string value'')])"
  by (simp add: exAddressFilter_def)

section \<open>The condition search\<close>

lemma validateCurrentSelection_cases:
  "validateCurrentSelection I schema excl state =
     (if advanceSelection I schema excl (cvs_subgraphPaths state) (cvs_selection state) = [] then None
      else Some (case selectionSet (cvs_selection state) of
                   None \<Rightarrow> []
                 | Some ss \<Rightarrow>
                     map (\<lambda>s. \<lparr>cvs_selection = s,
                              cvs_subgraphPaths = advanceSelection I schema excl
                                (cvs_subgraphPaths state) (cvs_selection state)\<rparr>)
                       (selections ss)))"
  by (simp add: validateCurrentSelection_def advanceSelection_def Let_def split: option.splits)

lemma unsatisfiableState_step:
  assumes "validateCurrentSelection I schema excl state = Some newStates"
  shows "unsatisfiableState I schema excl state \<longleftrightarrow>
     (\<exists>s \<in> set newStates. unsatisfiableState I schema excl s)"
proof -
  let ?new = "advanceSelection I schema excl (cvs_subgraphPaths state) (cvs_selection state)"
  from assms have ne: "?new \<noteq> []"
    and states: "newStates = (case selectionSet (cvs_selection state) of
                   None \<Rightarrow> []
                 | Some ss \<Rightarrow>
                     map (\<lambda>s. \<lparr>cvs_selection = s, cvs_subgraphPaths = ?new\<rparr>) (selections ss))"
    by (auto simp: validateCurrentSelection_cases split: if_splits)
  have "unsatisfiableState I schema excl state \<longleftrightarrow>
          (case selectionSet (cvs_selection state) of
             None \<Rightarrow> False
           | Some ss \<Rightarrow> (\<exists>sub \<in> set (selections ss). unsatisfiable I schema excl ?new sub))"
    unfolding unsatisfiableState_def
    by (subst unsatisfiable.simps) (simp add: ne Let_def)
  also have "\<dots> \<longleftrightarrow> (\<exists>s \<in> set newStates. unsatisfiableState I schema excl s)"
    by (cases "selectionSet (cvs_selection state)") (auto simp: states unsatisfiableState_def)
  finally show ?thesis .
qed

lemma unsatisfiableState_null:
  "validateCurrentSelection I schema excl state = None \<Longrightarrow> unsatisfiableState I schema excl state"
  by (subst unsatisfiableState_def, subst unsatisfiable.simps)
     (auto simp: validateCurrentSelection_cases Let_def split: if_splits)

lemma validateConditionsLoop_null:
  "validateConditionsLoop I schema excl stack = CondNull \<longleftrightarrow>
     (\<exists>state \<in> set stack. unsatisfiableState I schema excl state)"
proof (induction I schema excl stack rule: validateConditionsLoop.induct)
  case (1 I schema excl)
  then show ?case by simp
next
  case (2 I schema excl state stack)
  show ?case
  proof (cases "validateCurrentSelection I schema excl state")
    case None
    then show ?thesis using unsatisfiableState_null by auto
  next
    case (Some newStates)
    with "2.IH" [OF Some] unsatisfiableState_step [OF Some] show ?thesis
      by (auto simp: pushAll_def)
  qed
qed

text \<open>
  C5: \<^verbatim>\<open>validateConditions\<close> returns \<^verbatim>\<open>null\<close> exactly when some selection of the
  conditions cannot be satisfied from the initial path, that is when the search meets a
  selection whose advancement leaves no path-set, and \<^verbatim>\<open>undefined\<close> otherwise; the two
  results differ. One step of the search returns \<^verbatim>\<open>null\<close> exactly when the advancement
  leaves no path-set, and otherwise one work item per sub-selection, each with the
  surviving path-sets (none for a selection without sub-selections); the empty stack gives
  \<^verbatim>\<open>undefined\<close>.
\<close>

theorem validateConditions_result:
  "(validateConditions I schema conditions initialPath excl = CondNull \<longleftrightarrow>
      (\<exists>sel \<in> set (selections conditions). unsatisfiable I schema excl [[initialPath]] sel)) \<and>
   (validateConditions I schema conditions initialPath excl = CondUndefined \<longleftrightarrow>
      \<not> (\<exists>sel \<in> set (selections conditions). unsatisfiable I schema excl [[initialPath]] sel)) \<and>
   (validateCurrentSelection I schema excl state = None \<longleftrightarrow>
      advanceSelection I schema excl (cvs_subgraphPaths state) (cvs_selection state) = []) \<and>
   (advanceSelection I schema excl (cvs_subgraphPaths state) (cvs_selection state) \<noteq> [] \<longrightarrow>
      validateCurrentSelection I schema excl state =
        Some (map (\<lambda>s. \<lparr>cvs_selection = s,
                         cvs_subgraphPaths = advanceSelection I schema excl
                           (cvs_subgraphPaths state) (cvs_selection state)\<rparr>)
                (subSelections (cvs_selection state)))) \<and>
   validateConditionsLoop I schema excl [] = CondUndefined \<and>
   CondUndefined \<noteq> CondNull"
proof -
  have null: "validateConditions I schema conditions initialPath excl = CondNull \<longleftrightarrow>
      (\<exists>sel \<in> set (selections conditions). unsatisfiable I schema excl [[initialPath]] sel)"
    by (auto simp: validateConditions_def validateConditionsLoop_null pushAll_def
        unsatisfiableState_def)
  then have undef: "validateConditions I schema conditions initialPath excl = CondUndefined \<longleftrightarrow>
      \<not> (\<exists>sel \<in> set (selections conditions). unsatisfiable I schema excl [[initialPath]] sel)"
    by (cases "validateConditions I schema conditions initialPath excl") simp_all
  have step: "validateCurrentSelection I schema excl state = None \<longleftrightarrow>
      advanceSelection I schema excl (cvs_subgraphPaths state) (cvs_selection state) = []"
    by (simp add: validateCurrentSelection_cases)
  have push: "advanceSelection I schema excl (cvs_subgraphPaths state) (cvs_selection state) \<noteq> [] \<longrightarrow>
      validateCurrentSelection I schema excl state =
        Some (map (\<lambda>s. \<lparr>cvs_selection = s,
                         cvs_subgraphPaths = advanceSelection I schema excl
                           (cvs_subgraphPaths state) (cvs_selection state)\<rparr>)
                (subSelections (cvs_selection state)))"
    by (simp add: validateCurrentSelection_cases subSelections_def split: option.splits)
  from null undef step push show ?thesis by simp
qed

theorem validateConditions_result_witness:
  "validateConditions exImports None (exConditions fName) (create exSubgraphs subUser) () = CondUndefined \<and>
   \<not> (\<exists>sel \<in> set (selections (exConditions fName)).
        unsatisfiable exImports None () [[create exSubgraphs subUser]] sel) \<and>
   validateConditions exImports None (exConditions fAddress) (create exSubgraphs subUser) () = CondNull \<and>
   (\<exists>sel \<in> set (selections (exConditions fAddress)).
        unsatisfiable exImports None () [[create exSubgraphs subUser]] sel) \<and>
   length (the (validateCurrentSelection exImports None ()
      \<lparr>cvs_selection = hd (selections (exConditions fName)),
       cvs_subgraphPaths = [[create exSubgraphs subUser]]\<rparr>)) = 1"
proof -
  let ?state = "\<lparr>cvs_selection = hd (selections (exConditions fName)),
       cvs_subgraphPaths = [[create exSubgraphs subUser]]\<rparr>"
  have ok: "validateConditions exImports None (exConditions fName) (create exSubgraphs subUser) () = CondUndefined"
    by code_simp
  have bad: "validateConditions exImports None (exConditions fAddress) (create exSubgraphs subUser) () = CondNull"
    by code_simp
  have adv: "advanceSelection exImports None () (cvs_subgraphPaths ?state) (cvs_selection ?state) \<noteq> []"
    by code_simp
  have subs: "length (subSelections (cvs_selection ?state)) = 1"
    by code_simp
  from validateConditions_result
         [of exImports None "exConditions fName" "create exSubgraphs subUser" "()" ?state] ok adv
  have "\<not> (\<exists>sel \<in> set (selections (exConditions fName)).
        unsatisfiable exImports None () [[create exSubgraphs subUser]] sel)"
    and "length (the (validateCurrentSelection exImports None () ?state))
           = length (subSelections (cvs_selection ?state))"
    by simp_all
  moreover from validateConditions_result
         [of exImports None "exConditions fAddress" "create exSubgraphs subUser" "()"] bad
  have "\<exists>sel \<in> set (selections (exConditions fAddress)).
        unsatisfiable exImports None () [[create exSubgraphs subUser]] sel"
    by simp
  ultimately show ?thesis using ok bad subs by simp
qed

section \<open>Termination of the traversal\<close>

lemma visitedSince_nonempty: "vs \<noteq> [] \<Longrightarrow> visitedSince vs steps \<noteq> []"
  by (induction steps arbitrary: vs) auto



















end
